theory Spec2Isabelle
  imports Main "HOL-Library.AList" "HOL-Library.Multiset"
begin

section \<open>Data model (shared/schema.ts)\<close>

text \<open>
  Identifiers are JavaScript numbers that only ever hold integers here (the counters start
  at 1 and are incremented; route parameters go through \<^verbatim>\<open>parseInt\<close>); they are
  modelled as \<^typ>\<open>int\<close>, without the loss of precision a counter would suffer beyond
  \<open>2^53\<close>.  A \<^verbatim>\<open>Date\<close> is its number of milliseconds since the epoch.  A nullable
  column is an \<^typ>\<open>'a option\<close> with \<open>None\<close> for \<^verbatim>\<open>null\<close>.

  Every table of the schema has a field \<^verbatim>\<open>id\<close>, and several have \<^verbatim>\<open>name\<close>,
  \<^verbatim>\<open>email\<close> or \<^verbatim>\<open>role\<close>; the record fields carry the table's initial as a prefix
  (\<open>u_\<close> user, \<open>c_\<close> candidate, \<open>p_\<close> panel, \<open>f_\<close> feedback, \<open>r_\<close> room,
  \<open>cf_\<close> candidate feedback, \<open>rp_\<close> role permission) and otherwise keep the source's names.
\<close>

type_synonym date = int

record user =
  u_id :: int
  u_username :: string
  u_password :: string
  u_role :: string
  u_name :: string
  u_email :: string
  u_permissions :: "string list option"
  u_isActive :: bool
  u_createdAt :: date

record candidate =
  c_id :: int
  c_serialNo :: string
  c_name :: string
  c_email :: string
  c_position :: string
  c_timestamp :: date
  c_status :: string
  c_currentRound :: string
  c_assignedPanel :: "int option"
  c_roomNo :: "string option"
  c_qrCodeUrl :: "string option"

record panel =
  p_id :: int
  p_name :: string
  p_roomNo :: string
  p_isActive :: bool
  p_currentCandidate :: "int option"
  p_panelMembers :: "string list"

record feedback =
  f_id :: int
  f_candidateId :: int
  f_panelId :: int
  f_round :: string
  f_technicalSkills :: string
  f_communication :: string
  f_detailedFeedback :: string
  f_decision :: string
  f_nextRound :: "string option"
  f_createdAt :: date

record room =
  r_id :: int
  r_roomNumber :: string
  r_capacity :: int
  r_floor :: string
  r_type :: string
  r_isOccupied :: bool
  r_assignedPanels :: "int list option"

record candidateFeedback =
  cf_id :: int
  cf_candidateId :: int
  cf_overallExperience :: int
  cf_interviewDifficulty :: int
  cf_interviewFairness :: int
  cf_interviewerProfessionalism :: int
  cf_reasonsRating :: "string option"
  cf_improvementSuggestions :: "string option"
  cf_comparisonToOthers :: "string option"
  cf_additionalComments :: "string option"
  cf_submittedAt :: date
  cf_anonymous :: bool

record rolePermission =
  rp_id :: int
  rp_role :: string
  rp_permissions :: string
  rp_description :: "string option"
  rp_createdAt :: date
  rp_updatedAt :: date

subsection \<open>Insert types\<close>

text \<open>
  The \<^verbatim>\<open>Insert*\<close> types are what the zod schemas let through: a column with a default or
  without \<^verbatim>\<open>notNull\<close> may be left out or be \<^verbatim>\<open>null\<close>.  The constructors treat both
  alike (\<^verbatim>\<open>??\<close>, \<^verbatim>\<open>||\<close>), so both are \<open>None\<close> here.
\<close>

record insertUser =
  iu_username :: string
  iu_password :: string
  iu_role :: "string option"
  iu_name :: string
  iu_email :: string
  iu_permissions :: "string list option"
  iu_isActive :: "bool option"

record insertCandidate =
  ic_serialNo :: string
  ic_name :: string
  ic_email :: string
  ic_position :: string
  ic_timestamp :: date
  ic_status :: "string option"
  ic_currentRound :: "string option"
  ic_assignedPanel :: "int option"
  ic_roomNo :: "string option"
  ic_qrCodeUrl :: "string option"

record insertPanel =
  ip_name :: string
  ip_roomNo :: string
  ip_isActive :: "bool option"
  ip_currentCandidate :: "int option"
  ip_panelMembers :: "string list"

record insertFeedback =
  if_candidateId :: int
  if_panelId :: int
  if_round :: string
  if_technicalSkills :: string
  if_communication :: string
  if_detailedFeedback :: string
  if_decision :: string
  if_nextRound :: "string option"
  if_createdAt :: date

record insertRoom =
  ir_roomNumber :: string
  ir_capacity :: int
  ir_floor :: string
  ir_type :: string
  ir_isOccupied :: "bool option"
  ir_assignedPanels :: "int list option"

record insertCandidateFeedback =
  icf_candidateId :: int
  icf_overallExperience :: int
  icf_interviewDifficulty :: int
  icf_interviewFairness :: int
  icf_interviewerProfessionalism :: int
  icf_reasonsRating :: "string option"
  icf_improvementSuggestions :: "string option"
  icf_comparisonToOthers :: "string option"
  icf_additionalComments :: "string option"
  icf_anonymous :: "bool option"

record insertRolePermission =
  irp_role :: string
  irp_permissions :: string
  irp_description :: "string option"

subsection \<open>Partial updates\<close>

text \<open>
  \<^verbatim>\<open>Partial<T>\<close>: every field of \<open>T\<close> may be absent (\<open>None\<close>) or present
  (\<open>Some v\<close>); for a nullable field a present value may itself be \<^verbatim>\<open>null\<close>
  (\<open>Some None\<close>).  The PATCH routes pass the request body on unvalidated, so \<^verbatim>\<open>id\<close>
  is among the fields a client can overwrite.
\<close>

record userUpdates =
  uu_id :: "int option"
  uu_username :: "string option"
  uu_password :: "string option"
  uu_role :: "string option"
  uu_name :: "string option"
  uu_email :: "string option"
  uu_permissions :: "string list option option"
  uu_isActive :: "bool option"
  uu_createdAt :: "date option"

record candidateUpdates =
  cu_id :: "int option"
  cu_serialNo :: "string option"
  cu_name :: "string option"
  cu_email :: "string option"
  cu_position :: "string option"
  cu_timestamp :: "date option"
  cu_status :: "string option"
  cu_currentRound :: "string option"
  cu_assignedPanel :: "int option option"
  cu_roomNo :: "string option option"
  cu_qrCodeUrl :: "string option option"

record panelUpdates =
  pu_id :: "int option"
  pu_name :: "string option"
  pu_roomNo :: "string option"
  pu_isActive :: "bool option"
  pu_currentCandidate :: "int option option"
  pu_panelMembers :: "string list option"

record roomUpdates =
  ru_id :: "int option"
  ru_roomNumber :: "string option"
  ru_capacity :: "int option"
  ru_floor :: "string option"
  ru_type :: "string option"
  ru_isOccupied :: "bool option"
  ru_assignedPanels :: "int list option option"

record rolePermissionUpdates =
  rpu_id :: "int option"
  rpu_role :: "string option"
  rpu_permissions :: "string option"
  rpu_description :: "string option option"
  rpu_createdAt :: "date option"
  rpu_updatedAt :: "date option"

text \<open>The partial with no field present.\<close>

definition noUserUpdates :: userUpdates where
  "noUserUpdates = \<lparr>uu_id = None, uu_username = None, uu_password = None, uu_role = None,
     uu_name = None, uu_email = None, uu_permissions = None, uu_isActive = None,
     uu_createdAt = None\<rparr>"

definition noCandidateUpdates :: candidateUpdates where
  "noCandidateUpdates = \<lparr>cu_id = None, cu_serialNo = None, cu_name = None, cu_email = None,
     cu_position = None, cu_timestamp = None, cu_status = None, cu_currentRound = None,
     cu_assignedPanel = None, cu_roomNo = None, cu_qrCodeUrl = None\<rparr>"

definition noPanelUpdates :: panelUpdates where
  "noPanelUpdates = \<lparr>pu_id = None, pu_name = None, pu_roomNo = None, pu_isActive = None,
     pu_currentCandidate = None, pu_panelMembers = None\<rparr>"

definition noRoomUpdates :: roomUpdates where
  "noRoomUpdates = \<lparr>ru_id = None, ru_roomNumber = None, ru_capacity = None, ru_floor = None,
     ru_type = None, ru_isOccupied = None, ru_assignedPanels = None\<rparr>"

definition noRolePermissionUpdates :: rolePermissionUpdates where
  "noRolePermissionUpdates = \<lparr>rpu_id = None, rpu_role = None, rpu_permissions = None,
     rpu_description = None, rpu_createdAt = None, rpu_updatedAt = None\<rparr>"

text \<open>
  The object spread \<^verbatim>\<open>{ ...existing, ...updates }\<close>, field by field: a present field
  of \<open>updates\<close> wins, an absent one keeps the existing value.
\<close>

definition over :: "'a \<Rightarrow> 'a option \<Rightarrow> 'a" where
  "over old upd = (case upd of None \<Rightarrow> old | Some v \<Rightarrow> v)"

definition spreadUser :: "user \<Rightarrow> userUpdates \<Rightarrow> user" where
  "spreadUser e u = \<lparr>u_id = over (u_id e) (uu_id u),
     u_username = over (u_username e) (uu_username u),
     u_password = over (u_password e) (uu_password u),
     u_role = over (u_role e) (uu_role u),
     u_name = over (u_name e) (uu_name u),
     u_email = over (u_email e) (uu_email u),
     u_permissions = over (u_permissions e) (uu_permissions u),
     u_isActive = over (u_isActive e) (uu_isActive u),
     u_createdAt = over (u_createdAt e) (uu_createdAt u)\<rparr>"

definition spreadCandidate :: "candidate \<Rightarrow> candidateUpdates \<Rightarrow> candidate" where
  "spreadCandidate e u = \<lparr>c_id = over (c_id e) (cu_id u),
     c_serialNo = over (c_serialNo e) (cu_serialNo u),
     c_name = over (c_name e) (cu_name u),
     c_email = over (c_email e) (cu_email u),
     c_position = over (c_position e) (cu_position u),
     c_timestamp = over (c_timestamp e) (cu_timestamp u),
     c_status = over (c_status e) (cu_status u),
     c_currentRound = over (c_currentRound e) (cu_currentRound u),
     c_assignedPanel = over (c_assignedPanel e) (cu_assignedPanel u),
     c_roomNo = over (c_roomNo e) (cu_roomNo u),
     c_qrCodeUrl = over (c_qrCodeUrl e) (cu_qrCodeUrl u)\<rparr>"

definition spreadPanel :: "panel \<Rightarrow> panelUpdates \<Rightarrow> panel" where
  "spreadPanel e u = \<lparr>p_id = over (p_id e) (pu_id u),
     p_name = over (p_name e) (pu_name u),
     p_roomNo = over (p_roomNo e) (pu_roomNo u),
     p_isActive = over (p_isActive e) (pu_isActive u),
     p_currentCandidate = over (p_currentCandidate e) (pu_currentCandidate u),
     p_panelMembers = over (p_panelMembers e) (pu_panelMembers u)\<rparr>"

definition spreadRoom :: "room \<Rightarrow> roomUpdates \<Rightarrow> room" where
  "spreadRoom e u = \<lparr>r_id = over (r_id e) (ru_id u),
     r_roomNumber = over (r_roomNumber e) (ru_roomNumber u),
     r_capacity = over (r_capacity e) (ru_capacity u),
     r_floor = over (r_floor e) (ru_floor u),
     r_type = over (r_type e) (ru_type u),
     r_isOccupied = over (r_isOccupied e) (ru_isOccupied u),
     r_assignedPanels = over (r_assignedPanels e) (ru_assignedPanels u)\<rparr>"

definition spreadRolePermission :: "rolePermission \<Rightarrow> rolePermissionUpdates \<Rightarrow> rolePermission" where
  "spreadRolePermission e u = \<lparr>rp_id = over (rp_id e) (rpu_id u),
     rp_role = over (rp_role e) (rpu_role u),
     rp_permissions = over (rp_permissions e) (rpu_permissions u),
     rp_description = over (rp_description e) (rpu_description u),
     rp_createdAt = over (rp_createdAt e) (rpu_createdAt u),
     rp_updatedAt = over (rp_updatedAt e) (rpu_updatedAt u)\<rparr>"

section \<open>The entity store (server/storage.ts, class MemStorage)\<close>

text \<open>
  A JavaScript \<^verbatim>\<open>Map\<close> keeps its entries in insertion order, and
  \<^verbatim>\<open>Array.from(map.values())\<close> lists them in that order.  It is an association list:
  \<^verbatim>\<open>get\<close> is \<^const>\<open>map_of\<close>, \<^verbatim>\<open>set\<close> is \<^const>\<open>AList.update\<close> (an existing
  key keeps its place, a new one goes to the end), \<^verbatim>\<open>delete\<close> is \<^const>\<open>AList.delete\<close>
  and answers whether the key was there, \<^verbatim>\<open>values\<close> is \<^term>\<open>map snd\<close>.
\<close>

record store =
  users :: "(int \<times> user) list"
  candidates :: "(int \<times> candidate) list"
  panels :: "(int \<times> panel) list"
  feedbacks :: "(int \<times> feedback) list"
  rooms :: "(int \<times> room) list"
  candidateFeedbacks :: "(int \<times> candidateFeedback) list"
  rolePermissions :: "(int \<times> rolePermission) list"
  userCurrentId :: int
  candidateCurrentId :: int
  panelCurrentId :: int
  feedbackCurrentId :: int
  roomCurrentId :: int
  candidateFeedbackCurrentId :: int
  rolePermissionCurrentId :: int

definition has :: "('k \<times> 'v) list \<Rightarrow> 'k \<Rightarrow> bool" where
  "has m k = (case map_of m k of None \<Rightarrow> False | Some _ \<Rightarrow> True)"

text \<open>\<^verbatim>\<open>x || d\<close> on an optional string: the empty string is falsy as well.\<close>

definition orElse :: "string option \<Rightarrow> string \<Rightarrow> string" where
  "orElse x d = (case x of None \<Rightarrow> d | Some v \<Rightarrow> if v = [] then d else v)"

text \<open>\<^verbatim>\<open>x ?? d\<close>, and \<^verbatim>\<open>x || d\<close> where every value of \<open>x\<close> is truthy (an array).\<close>

definition nullish :: "'a option \<Rightarrow> 'a \<Rightarrow> 'a" where
  "nullish x d = (case x of None \<Rightarrow> d | Some v \<Rightarrow> v)"

subsection \<open>Users\<close>

definition getUser :: "int \<Rightarrow> store \<Rightarrow> user option" where
  "getUser i s = map_of (users s) i"

definition getUserByUsername :: "string \<Rightarrow> store \<Rightarrow> user option" where
  "getUserByUsername username s = find (\<lambda>u. u_username u = username) (map snd (users s))"

definition getUsers :: "store \<Rightarrow> user list" where
  "getUsers s = map snd (users s)"

text \<open>\<open>now\<close> is the value of \<^verbatim>\<open>new Date()\<close> at the call.\<close>

definition createUser :: "date \<Rightarrow> insertUser \<Rightarrow> store \<Rightarrow> user \<times> store" where
  "createUser now ins s =
     (let i = userCurrentId s;
          role = orElse (iu_role ins) ''panel'';
          permissions = nullish (iu_permissions ins) [];
          isActive = nullish (iu_isActive ins) True;
          u = \<lparr>u_id = i, u_username = iu_username ins, u_password = iu_password ins,
               u_role = role, u_name = iu_name ins, u_email = iu_email ins,
               u_permissions = Some permissions, u_isActive = isActive, u_createdAt = now\<rparr>
      in (u, s\<lparr>users := AList.update i u (users s), userCurrentId := i + 1\<rparr>))"

definition updateUser :: "int \<Rightarrow> userUpdates \<Rightarrow> store \<Rightarrow> user option \<times> store" where
  "updateUser i updates s =
     (case map_of (users s) i of
        None \<Rightarrow> (None, s)
      | Some existing \<Rightarrow>
          (let updated = spreadUser existing updates
           in (Some updated, s\<lparr>users := AList.update i updated (users s)\<rparr>)))"

definition deleteUser :: "int \<Rightarrow> store \<Rightarrow> bool \<times> store" where
  "deleteUser i s = (has (users s) i, s\<lparr>users := AList.delete i (users s)\<rparr>)"

subsection \<open>Candidates\<close>

definition getCandidates :: "store \<Rightarrow> candidate list" where
  "getCandidates s = map snd (candidates s)"

definition getCandidate :: "int \<Rightarrow> store \<Rightarrow> candidate option" where
  "getCandidate i s = map_of (candidates s) i"

definition getCandidateBySerialNo :: "string \<Rightarrow> store \<Rightarrow> candidate option" where
  "getCandidateBySerialNo serialNo s = find (\<lambda>c. c_serialNo c = serialNo) (map snd (candidates s))"

definition getCandidateByEmail :: "string \<Rightarrow> store \<Rightarrow> candidate option" where
  "getCandidateByEmail email s = find (\<lambda>c. c_email c = email) (map snd (candidates s))"

definition createCandidate :: "insertCandidate \<Rightarrow> store \<Rightarrow> candidate \<times> store" where
  "createCandidate ins s =
     (let i = candidateCurrentId s;
          status = orElse (ic_status ins) ''registered'';
          currentRound = orElse (ic_currentRound ins) ''gd'';
          c = \<lparr>c_id = i, c_serialNo = ic_serialNo ins, c_name = ic_name ins,
               c_email = ic_email ins, c_position = ic_position ins,
               c_timestamp = ic_timestamp ins, c_status = status,
               c_currentRound = currentRound, c_assignedPanel = ic_assignedPanel ins,
               c_roomNo = ic_roomNo ins, c_qrCodeUrl = ic_qrCodeUrl ins\<rparr>
      in (c, s\<lparr>candidates := AList.update i c (candidates s), candidateCurrentId := i + 1\<rparr>))"

definition updateCandidate :: "int \<Rightarrow> candidateUpdates \<Rightarrow> store \<Rightarrow> candidate option \<times> store" where
  "updateCandidate i updates s =
     (case map_of (candidates s) i of
        None \<Rightarrow> (None, s)
      | Some existing \<Rightarrow>
          (let updated = spreadCandidate existing updates
           in (Some updated, s\<lparr>candidates := AList.update i updated (candidates s)\<rparr>)))"

subsection \<open>Panels\<close>

definition getPanels :: "store \<Rightarrow> panel list" where
  "getPanels s = map snd (panels s)"

definition getPanel :: "int \<Rightarrow> store \<Rightarrow> panel option" where
  "getPanel i s = map_of (panels s) i"

definition createPanel :: "insertPanel \<Rightarrow> store \<Rightarrow> panel \<times> store" where
  "createPanel ins s =
     (let i = panelCurrentId s;
          isActive = nullish (ip_isActive ins) True;
          p = \<lparr>p_id = i, p_name = ip_name ins, p_roomNo = ip_roomNo ins,
               p_isActive = isActive, p_currentCandidate = ip_currentCandidate ins,
               p_panelMembers = ip_panelMembers ins\<rparr>
      in (p, s\<lparr>panels := AList.update i p (panels s), panelCurrentId := i + 1\<rparr>))"

definition updatePanel :: "int \<Rightarrow> panelUpdates \<Rightarrow> store \<Rightarrow> panel option \<times> store" where
  "updatePanel i updates s =
     (case map_of (panels s) i of
        None \<Rightarrow> (None, s)
      | Some existing \<Rightarrow>
          (let updated = spreadPanel existing updates
           in (Some updated, s\<lparr>panels := AList.update i updated (panels s)\<rparr>)))"

subsection \<open>Feedback\<close>

definition getFeedback :: "int \<Rightarrow> store \<Rightarrow> feedback option" where
  "getFeedback i s = map_of (feedbacks s) i"

definition getFeedbackByCandidate :: "int \<Rightarrow> store \<Rightarrow> feedback list" where
  "getFeedbackByCandidate candidateId s =
     filter (\<lambda>f. f_candidateId f = candidateId) (map snd (feedbacks s))"

definition createFeedback :: "insertFeedback \<Rightarrow> store \<Rightarrow> feedback \<times> store" where
  "createFeedback ins s =
     (let i = feedbackCurrentId s;
          f = \<lparr>f_id = i, f_candidateId = if_candidateId ins, f_panelId = if_panelId ins,
               f_round = if_round ins, f_technicalSkills = if_technicalSkills ins,
               f_communication = if_communication ins,
               f_detailedFeedback = if_detailedFeedback ins, f_decision = if_decision ins,
               f_nextRound = if_nextRound ins, f_createdAt = if_createdAt ins\<rparr>
      in (f, s\<lparr>feedbacks := AList.update i f (feedbacks s), feedbackCurrentId := i + 1\<rparr>))"

subsection \<open>Rooms\<close>

definition getRooms :: "store \<Rightarrow> room list" where
  "getRooms s = map snd (rooms s)"

definition getRoom :: "int \<Rightarrow> store \<Rightarrow> room option" where
  "getRoom i s = map_of (rooms s) i"

definition getRoomByNumber :: "string \<Rightarrow> store \<Rightarrow> room option" where
  "getRoomByNumber roomNumber s = find (\<lambda>r. r_roomNumber r = roomNumber) (map snd (rooms s))"

definition createRoom :: "insertRoom \<Rightarrow> store \<Rightarrow> room \<times> store" where
  "createRoom ins s =
     (let i = roomCurrentId s;
          isOccupied = nullish (ir_isOccupied ins) False;
          assignedPanels = nullish (ir_assignedPanels ins) [];
          r = \<lparr>r_id = i, r_roomNumber = ir_roomNumber ins, r_capacity = ir_capacity ins,
               r_floor = ir_floor ins, r_type = ir_type ins, r_isOccupied = isOccupied,
               r_assignedPanels = Some assignedPanels\<rparr>
      in (r, s\<lparr>rooms := AList.update i r (rooms s), roomCurrentId := i + 1\<rparr>))"

definition updateRoom :: "int \<Rightarrow> roomUpdates \<Rightarrow> store \<Rightarrow> room option \<times> store" where
  "updateRoom i updates s =
     (case map_of (rooms s) i of
        None \<Rightarrow> (None, s)
      | Some existing \<Rightarrow>
          (let updated = spreadRoom existing updates
           in (Some updated, s\<lparr>rooms := AList.update i updated (rooms s)\<rparr>)))"

definition assignPanelToRoom :: "int \<Rightarrow> int \<Rightarrow> store \<Rightarrow> room option \<times> store" where
  "assignPanelToRoom roomId panelId s =
     (case map_of (rooms s) roomId of
        None \<Rightarrow> (None, s)
      | Some room \<Rightarrow>
         (case map_of (panels s) panelId of
            None \<Rightarrow> (None, s)
          | Some panel \<Rightarrow>
             (let currentAssignedPanels = nullish (r_assignedPanels room) []
              in if panelId \<in> set currentAssignedPanels then (Some room, s)
                 else
                   (let updatedAssignedPanels = currentAssignedPanels @ [panelId];
                        updated = room\<lparr>r_assignedPanels := Some updatedAssignedPanels,
                                       r_isOccupied := True\<rparr>;
                        s1 = s\<lparr>rooms := AList.update roomId updated (rooms s)\<rparr>;
                        s2 = snd (updatePanel panelId
                               (noPanelUpdates\<lparr>pu_roomNo := Some (r_roomNumber room)\<rparr>) s1)
                    in (Some updated, s2)))))"

definition removePanelFromRoom :: "int \<Rightarrow> int \<Rightarrow> store \<Rightarrow> room option \<times> store" where
  "removePanelFromRoom roomId panelId s =
     (case map_of (rooms s) roomId of
        None \<Rightarrow> (None, s)
      | Some room \<Rightarrow>
         (let currentAssignedPanels = nullish (r_assignedPanels room) []
          in if panelId \<notin> set currentAssignedPanels then (Some room, s)
             else
               (let updatedAssignedPanels = filter (\<lambda>i. i \<noteq> panelId) currentAssignedPanels;
                    updated = room\<lparr>r_assignedPanels := Some updatedAssignedPanels,
                                   r_isOccupied := (length updatedAssignedPanels > 0)\<rparr>;
                    s1 = s\<lparr>rooms := AList.update roomId updated (rooms s)\<rparr>;
                    s2 = (case map_of (panels s1) panelId of
                            None \<Rightarrow> s1
                          | Some panel \<Rightarrow>
                              if p_roomNo panel = r_roomNumber room
                              then snd (updatePanel panelId
                                     (noPanelUpdates\<lparr>pu_roomNo := Some []\<rparr>) s1)
                              else s1)
                in (Some updated, s2))))"

subsection \<open>Candidate feedback\<close>

definition getCandidateFeedbacks :: "store \<Rightarrow> candidateFeedback list" where
  "getCandidateFeedbacks s = map snd (candidateFeedbacks s)"

definition getCandidateFeedback :: "int \<Rightarrow> store \<Rightarrow> candidateFeedback option" where
  "getCandidateFeedback i s = map_of (candidateFeedbacks s) i"

definition createCandidateFeedback ::
  "date \<Rightarrow> insertCandidateFeedback \<Rightarrow> store \<Rightarrow> candidateFeedback \<times> store" where
  "createCandidateFeedback now ins s =
     (let i = candidateFeedbackCurrentId s;
          f = \<lparr>cf_id = i, cf_candidateId = icf_candidateId ins,
               cf_overallExperience = icf_overallExperience ins,
               cf_interviewDifficulty = icf_interviewDifficulty ins,
               cf_interviewFairness = icf_interviewFairness ins,
               cf_interviewerProfessionalism = icf_interviewerProfessionalism ins,
               cf_reasonsRating = icf_reasonsRating ins,
               cf_improvementSuggestions = icf_improvementSuggestions ins,
               cf_comparisonToOthers = icf_comparisonToOthers ins,
               cf_additionalComments = icf_additionalComments ins,
               cf_submittedAt = now,
               cf_anonymous = nullish (icf_anonymous ins) False\<rparr>
      in (f, s\<lparr>candidateFeedbacks := AList.update i f (candidateFeedbacks s),
               candidateFeedbackCurrentId := i + 1\<rparr>))"

subsection \<open>Role permissions\<close>

definition getRolePermissions :: "store \<Rightarrow> rolePermission list" where
  "getRolePermissions s = map snd (rolePermissions s)"

definition getRolePermission :: "int \<Rightarrow> store \<Rightarrow> rolePermission option" where
  "getRolePermission i s = map_of (rolePermissions s) i"

definition createRolePermission ::
  "date \<Rightarrow> insertRolePermission \<Rightarrow> store \<Rightarrow> rolePermission \<times> store" where
  "createRolePermission now ins s =
     (let i = rolePermissionCurrentId s;
          rp = \<lparr>rp_id = i, rp_role = irp_role ins, rp_permissions = irp_permissions ins,
                rp_description = irp_description ins, rp_createdAt = now, rp_updatedAt = now\<rparr>
      in (rp, s\<lparr>rolePermissions := AList.update i rp (rolePermissions s),
                rolePermissionCurrentId := i + 1\<rparr>))"

definition updateRolePermission ::
  "date \<Rightarrow> int \<Rightarrow> rolePermissionUpdates \<Rightarrow> store \<Rightarrow> rolePermission option \<times> store" where
  "updateRolePermission now i updates s =
     (case map_of (rolePermissions s) i of
        None \<Rightarrow> (None, s)
      | Some existing \<Rightarrow>
          (let updated = (spreadRolePermission existing updates)\<lparr>rp_updatedAt := now\<rparr>
           in (Some updated, s\<lparr>rolePermissions := AList.update i updated (rolePermissions s)\<rparr>)))"

definition deleteRolePermission :: "int \<Rightarrow> store \<Rightarrow> bool \<times> store" where
  "deleteRolePermission i s =
     (has (rolePermissions s) i, s\<lparr>rolePermissions := AList.delete i (rolePermissions s)\<rparr>)"

section \<open>The HTTP routes (server/routes.ts)\<close>

text \<open>
  A handler takes the request and the store and returns the response and the new store.
  \<open>Json code v\<close> is \<^verbatim>\<open>res.status(code).json(v)\<close> (\<^verbatim>\<open>res.json(v)\<close> answers 200),
  \<open>Failure code msg\<close> is \<^verbatim>\<open>res.status(code).json({ message: msg })\<close>, and
  \<open>Invalid code msg\<close> is \<^verbatim>\<open>res.status(code).json({ message: msg, errors: error.errors })\<close>,
  the answer to a body that the route's zod schema refuses.  The calls of
  \<^verbatim>\<open>broadcastUpdate\<close> only send over the open sockets and leave the store alone; they
  are not part of the model.  Where a route validates the body with a zod schema, the
  handler takes the outcome of \<^verbatim>\<open>parse\<close>: \<open>None\<close> when it throws a \<^verbatim>\<open>ZodError\<close>.
\<close>

datatype 'a response = Json nat 'a | Failure nat string | Invalid nat string

fun statusCode :: "'a response \<Rightarrow> nat" where
  "statusCode (Json code v) = code"
| "statusCode (Failure code msg) = code"
| "statusCode (Invalid code msg) = code"

subsection \<open>POST /api/feedback\<close>

text \<open>
  \<^verbatim>\<open>...(currentRound && { currentRound })\<close>: the field is spread into the update only when
  the string is truthy, that is neither undefined nor empty.  \<open>truthy x\<close> is the string when
  it is truthy.
\<close>

definition truthy :: "string option \<Rightarrow> string option" where
  "truthy x = (case x of None \<Rightarrow> None | Some v \<Rightarrow> if v = [] then None else Some v)"

definition postFeedback :: "insertFeedback option \<Rightarrow> store \<Rightarrow> feedback response \<times> store" where
  "postFeedback parsed s =
     (case parsed of
        None \<Rightarrow> (Invalid 400 ''Invalid feedback data'', s)
      | Some feedbackData \<Rightarrow>
         (let (newFeedback, s1) = createFeedback feedbackData s;
              s2 = (case getCandidate (if_candidateId feedbackData) s1 of
                      None \<Rightarrow> s1
                    | Some candidate \<Rightarrow>
                       (let (status, currentRound) =
                              (if if_decision feedbackData = ''next''
                               then (''in_queue'', if_nextRound feedbackData)
                               else if if_decision feedbackData = ''reject''
                               then (''rejected'', None)
                               else (''in_queue'', None))
                        in snd (updateCandidate (c_id candidate)
                                 (noCandidateUpdates\<lparr>cu_status := Some status,
                                    cu_currentRound := truthy currentRound,
                                    cu_assignedPanel := Some None\<rparr>) s1)))
          in (Json 201 newFeedback, s2)))"

subsection \<open>POST /api/google-sheets/webhook and POST /api/candidates/manual\<close>

text \<open>
  \<^verbatim>\<open>Number.prototype.toString\<close> on a non-negative integer (an array length plus one):
  its decimal digits, most significant first.
\<close>

definition digitChar :: "nat \<Rightarrow> char" where
  "digitChar d = ''0123456789'' ! d"

function toString :: "nat \<Rightarrow> string" where
  "toString n = (if n < 10 then [digitChar n] else toString (n div 10) @ [digitChar (n mod 10)])"
  by pat_completeness auto
termination
  by (relation "measure (\<lambda>n. n)") auto

declare toString.simps [simp del]

definition padStart :: "nat \<Rightarrow> char \<Rightarrow> string \<Rightarrow> string" where
  "padStart targetLength c str = replicate (targetLength - length str) c @ str"

definition serialNoFor :: "candidate list \<Rightarrow> string" where
  "serialNoFor cands = ''WD-'' @ padStart 3 (CHR ''0'') (toString (length cands + 1))"

definition qrCodeUrlFor :: "string \<Rightarrow> string" where
  "qrCodeUrlFor serialNo =
     ''https://api.qrserver.com/v1/create-qr-code/?data='' @ serialNo @ ''&size=150x150''"

text \<open>
  The body's \<^verbatim>\<open>name\<close>, \<^verbatim>\<open>email\<close> and \<^verbatim>\<open>position\<close> are taken as strings and
  \<^verbatim>\<open>new Date(timestamp)\<close> as a date.
\<close>

definition googleSheetsWebhook ::
  "string \<Rightarrow> string \<Rightarrow> string \<Rightarrow> date \<Rightarrow> store \<Rightarrow> candidate response \<times> store" where
  "googleSheetsWebhook name email position timestamp s =
     (let cands = getCandidates s;
          serialNo = serialNoFor cands;
          qrCodeUrl = qrCodeUrlFor serialNo;
          (newCandidate, s1) = createCandidate
             \<lparr>ic_serialNo = serialNo, ic_name = name, ic_email = email, ic_position = position,
              ic_timestamp = timestamp, ic_status = Some ''registered'',
              ic_currentRound = Some ''gd'', ic_assignedPanel = None, ic_roomNo = None,
              ic_qrCodeUrl = Some qrCodeUrl\<rparr> s
      in (Json 201 newCandidate, s1))"

text \<open>A field missing from the body is falsy like the empty string.\<close>

definition manualCandidate ::
  "date \<Rightarrow> string \<Rightarrow> string \<Rightarrow> string \<Rightarrow> store \<Rightarrow> candidate response \<times> store" where
  "manualCandidate now name email position s =
     (if name = [] \<or> email = [] \<or> position = []
      then (Failure 400 ''Name, email, and position are required'', s)
      else
        (let cands = getCandidates s;
             serialNo = serialNoFor cands;
             qrCodeUrl = qrCodeUrlFor serialNo;
             (newCandidate, s1) = createCandidate
                \<lparr>ic_serialNo = serialNo, ic_name = name, ic_email = email,
                 ic_position = position, ic_timestamp = now, ic_status = Some ''registered'',
                 ic_currentRound = Some ''gd'', ic_assignedPanel = None, ic_roomNo = None,
                 ic_qrCodeUrl = Some qrCodeUrl\<rparr> s
         in (Json 201 newCandidate, s1)))"

text \<open>POST /api/candidates stores a validated body as it is.\<close>

definition postCandidate :: "insertCandidate option \<Rightarrow> store \<Rightarrow> candidate response \<times> store" where
  "postCandidate parsed s =
     (case parsed of
        None \<Rightarrow> (Invalid 400 ''Invalid candidate data'', s)
      | Some candidateData \<Rightarrow>
          (let (newCandidate, s1) = createCandidate candidateData s
           in (Json 201 newCandidate, s1)))"

subsection \<open>Room routes\<close>

definition postRoom :: "insertRoom option \<Rightarrow> store \<Rightarrow> room response \<times> store" where
  "postRoom parsed s =
     (case parsed of
        None \<Rightarrow> (Invalid 400 ''Invalid room data'', s)
      | Some roomData \<Rightarrow>
          (let (newRoom, s1) = createRoom roomData s in (Json 201 newRoom, s1)))"

definition patchRoom :: "int \<Rightarrow> roomUpdates \<Rightarrow> store \<Rightarrow> room response \<times> store" where
  "patchRoom i roomUpdates s =
     (case updateRoom i roomUpdates s of
        (None, s1) \<Rightarrow> (Failure 404 ''Room not found'', s1)
      | (Some updatedRoom, s1) \<Rightarrow> (Json 200 updatedRoom, s1))"

text \<open>
  \<^verbatim>\<open>room.assignedPanels && room.assignedPanels.includes(panelId)\<close>: false on
  \<^verbatim>\<open>null\<close>, membership otherwise.
\<close>

definition includesPanel :: "room \<Rightarrow> int \<Rightarrow> bool" where
  "includesPanel room panelId =
     (case r_assignedPanels room of None \<Rightarrow> False | Some ps \<Rightarrow> panelId \<in> set ps)"

definition assignPanelRoute :: "int \<Rightarrow> int \<Rightarrow> store \<Rightarrow> room response \<times> store" where
  "assignPanelRoute roomId panelId s =
     (let rs = getRooms s;
          panelAssignedRooms = filter (\<lambda>room. includesPanel room panelId \<and> r_id room \<noteq> roomId) rs;
          s1 = (if length panelAssignedRooms > 0
                then fold (\<lambda>room st. snd (removePanelFromRoom (r_id room) panelId st))
                       panelAssignedRooms s
                else s);
          s2 = (case getPanel panelId s1 of
                  None \<Rightarrow> s1
                | Some panel \<Rightarrow>
                   (case getRoom roomId s1 of
                      None \<Rightarrow> s1
                    | Some room \<Rightarrow>
                        snd (updatePanel panelId
                              (noPanelUpdates\<lparr>pu_roomNo := Some (r_roomNumber room)\<rparr>) s1)))
      in (case assignPanelToRoom roomId panelId s2 of
            (None, s3) \<Rightarrow> (Failure 404 ''Room or panel not found'', s3)
          | (Some updatedRoom, s3) \<Rightarrow> (Json 200 updatedRoom, s3)))"

definition removePanelRoute :: "int \<Rightarrow> int \<Rightarrow> store \<Rightarrow> room response \<times> store" where
  "removePanelRoute roomId panelId s =
     (let s1 = (case getPanel panelId s of
                  None \<Rightarrow> s
                | Some panel \<Rightarrow>
                    snd (updatePanel panelId (noPanelUpdates\<lparr>pu_roomNo := Some []\<rparr>) s))
      in (case removePanelFromRoom roomId panelId s1 of
            (None, s2) \<Rightarrow> (Failure 404 ''Room or panel not found'', s2)
          | (Some updatedRoom, s2) \<Rightarrow> (Json 200 updatedRoom, s2)))"

subsection \<open>Login and user routes\<close>

text \<open>
  These routes build their payload field by field or with a rest pattern
  (\<^verbatim>\<open>const { password, ...safeUser } = user\<close>), so the payload is a JavaScript object:
  a list of its own properties, name and value.  \<open>userObject\<close> lists the properties of a
  stored user; the order of the properties plays no role.  \<open>JIssues\<close> stands for the
  issue list of a \<^verbatim>\<open>ZodError\<close>, whose content is zod's.
\<close>

datatype jsval =
  JNull | JNum int | JStr string | JBool bool | JDate date | JStrs "string list" | JIssues

type_synonym jsobj = "(string \<times> jsval) list"

datatype body = Obj jsobj | Arr "jsobj list"

definition userObject :: "user \<Rightarrow> jsobj" where
  "userObject u =
     [(''id'', JNum (u_id u)), (''username'', JStr (u_username u)),
      (''password'', JStr (u_password u)), (''role'', JStr (u_role u)),
      (''name'', JStr (u_name u)), (''email'', JStr (u_email u)),
      (''permissions'', (case u_permissions u of None \<Rightarrow> JNull | Some ps \<Rightarrow> JStrs ps)),
      (''isActive'', JBool (u_isActive u)), (''createdAt'', JDate (u_createdAt u))]"

text \<open>The rest pattern: every property but the named one.\<close>

definition omit :: "string \<Rightarrow> jsobj \<Rightarrow> jsobj" where
  "omit k obj = filter (\<lambda>kv. fst kv \<noteq> k) obj"

definition hasField :: "string \<Rightarrow> jsobj \<Rightarrow> bool" where
  "hasField k obj = (k \<in> set (map fst obj))"

text \<open>
  \<^verbatim>\<open>!username || !password\<close>: a field that is missing from the body or empty is
  falsy.
\<close>

definition login :: "string option \<Rightarrow> string option \<Rightarrow> store \<Rightarrow> body response \<times> store" where
  "login username password s =
     (case (truthy username, truthy password) of
        (Some name, Some pw) \<Rightarrow>
          (case getUserByUsername name s of
             None \<Rightarrow> (Failure 401 ''Invalid credentials'', s)
           | Some u \<Rightarrow>
               if u_password u \<noteq> pw
               then (Failure 401 ''Invalid credentials'', s)
               else (Json 200 (Obj [(''id'', JNum (u_id u)), (''username'', JStr (u_username u)),
                                    (''name'', JStr (u_name u)), (''email'', JStr (u_email u)),
                                    (''role'', JStr (u_role u))]), s))
      | _ \<Rightarrow> (Failure 400 ''Username and password are required'', s))"

definition listUsers :: "store \<Rightarrow> body response \<times> store" where
  "listUsers s = (Json 200 (Arr (map (\<lambda>u. omit ''password'' (userObject u)) (getUsers s))), s)"

definition getUserRoute :: "int \<Rightarrow> store \<Rightarrow> body response \<times> store" where
  "getUserRoute i s =
     (case getUser i s of
        None \<Rightarrow> (Failure 404 ''User not found'', s)
      | Some u \<Rightarrow> (Json 200 (Obj (omit ''password'' (userObject u))), s))"

definition postUser :: "date \<Rightarrow> insertUser option \<Rightarrow> store \<Rightarrow> body response \<times> store" where
  "postUser now parsed s =
     (case parsed of
        None \<Rightarrow> (Invalid 400 ''Invalid user data'', s)
      | Some userData \<Rightarrow>
          (let (newUser, s1) = createUser now userData s
           in (Json 201 (Obj (omit ''password'' (userObject newUser))), s1)))"

definition patchUser :: "int \<Rightarrow> userUpdates \<Rightarrow> store \<Rightarrow> body response \<times> store" where
  "patchUser i userUpdates s =
     (case updateUser i userUpdates s of
        (None, s1) \<Rightarrow> (Failure 404 ''User not found'', s1)
      | (Some updatedUser, s1) \<Rightarrow> (Json 200 (Obj (omit ''password'' (userObject updatedUser))), s1))"

text \<open>The five requests, and what their JSON payload is made of.\<close>

datatype userRequest =
    Login "string option" "string option"
  | ListUsers
  | GetUser int
  | PostUser "insertUser option"
  | PatchUser int userUpdates

fun userApi :: "date \<Rightarrow> userRequest \<Rightarrow> store \<Rightarrow> body response \<times> store" where
  "userApi now (Login username password) s = login username password s"
| "userApi now ListUsers s = listUsers s"
| "userApi now (GetUser i) s = getUserRoute i s"
| "userApi now (PostUser parsed) s = postUser now parsed s"
| "userApi now (PatchUser i updates) s = patchUser i updates s"

fun payload :: "body response \<Rightarrow> body" where
  "payload (Json code b) = b"
| "payload (Failure code msg) = Obj [(''message'', JStr msg)]"
| "payload (Invalid code msg) = Obj [(''message'', JStr msg), (''errors'', JIssues)]"

fun objects :: "body \<Rightarrow> jsobj list" where
  "objects (Obj obj) = [obj]"
| "objects (Arr objs) = objs"

section \<open>Queue position (client/src/pages, EmailQueuePage)\<close>

text \<open>
  \<^verbatim>\<open>Array.prototype.findIndex\<close> answers \<open>-1\<close> when no element satisfies the predicate.
\<close>

fun findIndex :: "('a \<Rightarrow> bool) \<Rightarrow> 'a list \<Rightarrow> int" where
  "findIndex P [] = -1"
| "findIndex P (x # xs) =
     (if P x then 0 else (let i = findIndex P xs in if i = -1 then -1 else i + 1))"

text \<open>\<^verbatim>\<open>xs.filter((_, index) => index < position)\<close>\<close>

definition filterIndexBelow :: "int \<Rightarrow> 'a list \<Rightarrow> 'a list" where
  "filterIndexBelow position xs =
     map snd (filter (\<lambda>ix. int (fst ix) < position) (enumerate 0 xs))"

text \<open>
  \<^verbatim>\<open>Array.prototype.sort\<close> with the comparator \<^verbatim>\<open>a.timestamp - b.timestamp\<close> is a stable
  sort on the timestamp (ECMAScript 2019), as \<^const>\<open>sort_key\<close> is.  The effect runs when
  the candidate is loaded and the list of all candidates is not empty; otherwise the two
  state variables keep their values.  The state is the pair of \<^verbatim>\<open>queuePosition\<close> and
  \<^verbatim>\<open>candidatesAhead\<close>, initially \<open>(0, [])\<close>.
\<close>

definition inQueueWith :: "candidate \<Rightarrow> candidate \<Rightarrow> bool" where
  "inQueueWith candidate c \<longleftrightarrow>
     c_currentRound c = c_currentRound candidate \<and> c_status c \<in> set [''registered'', ''in_queue'']"

definition queueEffect ::
  "candidate option \<Rightarrow> candidate list \<Rightarrow> int \<times> candidate list \<Rightarrow> int \<times> candidate list" where
  "queueEffect cand allCandidates st =
     (case cand of
        None \<Rightarrow> st
      | Some candidate \<Rightarrow>
          if length allCandidates > 0 then
            (let sameRoundCandidates = filter (inQueueWith candidate) allCandidates;
                 sortedCandidates = sort_key c_timestamp sameRoundCandidates;
                 position = findIndex (\<lambda>c. c_email c = c_email candidate) sortedCandidates;
                 queuePosition = (if position \<noteq> -1 then position + 1 else 0);
                 ahead = filterIndexBelow position sortedCandidates
             in (queuePosition, ahead))
          else st)"

section \<open>The store's operations as data\<close>

text \<open>
  The mutating methods of \<^verbatim>\<open>IStorage\<close>, one constructor each, so that a run of the store
  is a list of operations.  \<open>exec\<close> answers the kind and the identifier of the entity a
  create call returns, and \<open>None\<close> for the other methods.
\<close>

datatype kind = KUser | KCandidate | KPanel | KFeedback | KRoom | KCandidateFeedback | KRolePermission

datatype operation =
    CreateUser date insertUser
  | UpdateUser int userUpdates
  | DeleteUser int
  | CreateCandidate insertCandidate
  | UpdateCandidate int candidateUpdates
  | CreatePanel insertPanel
  | UpdatePanel int panelUpdates
  | CreateFeedback insertFeedback
  | CreateRoom insertRoom
  | UpdateRoom int roomUpdates
  | AssignPanelToRoom int int
  | RemovePanelFromRoom int int
  | CreateCandidateFeedback date insertCandidateFeedback
  | CreateRolePermission date insertRolePermission
  | UpdateRolePermission date int rolePermissionUpdates
  | DeleteRolePermission int

fun exec :: "operation \<Rightarrow> store \<Rightarrow> (kind \<times> int) option \<times> store" where
  "exec (CreateUser now ins) s = (let (e, s') = createUser now ins s in (Some (KUser, u_id e), s'))"
| "exec (UpdateUser i upd) s = (None, snd (updateUser i upd s))"
| "exec (DeleteUser i) s = (None, snd (deleteUser i s))"
| "exec (CreateCandidate ins) s =
     (let (e, s') = createCandidate ins s in (Some (KCandidate, c_id e), s'))"
| "exec (UpdateCandidate i upd) s = (None, snd (updateCandidate i upd s))"
| "exec (CreatePanel ins) s = (let (e, s') = createPanel ins s in (Some (KPanel, p_id e), s'))"
| "exec (UpdatePanel i upd) s = (None, snd (updatePanel i upd s))"
| "exec (CreateFeedback ins) s =
     (let (e, s') = createFeedback ins s in (Some (KFeedback, f_id e), s'))"
| "exec (CreateRoom ins) s = (let (e, s') = createRoom ins s in (Some (KRoom, r_id e), s'))"
| "exec (UpdateRoom i upd) s = (None, snd (updateRoom i upd s))"
| "exec (AssignPanelToRoom roomId panelId) s = (None, snd (assignPanelToRoom roomId panelId s))"
| "exec (RemovePanelFromRoom roomId panelId) s = (None, snd (removePanelFromRoom roomId panelId s))"
| "exec (CreateCandidateFeedback now ins) s =
     (let (e, s') = createCandidateFeedback now ins s in (Some (KCandidateFeedback, cf_id e), s'))"
| "exec (CreateRolePermission now ins) s =
     (let (e, s') = createRolePermission now ins s in (Some (KRolePermission, rp_id e), s'))"
| "exec (UpdateRolePermission now i upd) s = (None, snd (updateRolePermission now i upd s))"
| "exec (DeleteRolePermission i) s = (None, snd (deleteRolePermission i s))"

fun run :: "operation list \<Rightarrow> store \<Rightarrow> store" where
  "run [] s = s"
| "run (x # xs) s = run xs (snd (exec x s))"

text \<open>The identifiers that the create calls of one kind return along a run, in order.\<close>

fun createdIds :: "kind \<Rightarrow> operation list \<Rightarrow> store \<Rightarrow> int list" where
  "createdIds k [] s = []"
| "createdIds k (x # xs) s =
     (case exec x s of
        (Some (k', i), s') \<Rightarrow> (if k' = k then [i] else []) @ createdIds k xs s'
      | (None, s') \<Rightarrow> createdIds k xs s')"

fun currentId :: "kind \<Rightarrow> store \<Rightarrow> int" where
  "currentId KUser s = userCurrentId s"
| "currentId KCandidate s = candidateCurrentId s"
| "currentId KPanel s = panelCurrentId s"
| "currentId KFeedback s = feedbackCurrentId s"
| "currentId KRoom s = roomCurrentId s"
| "currentId KCandidateFeedback s = candidateFeedbackCurrentId s"
| "currentId KRolePermission s = rolePermissionCurrentId s"

section \<open>The room invariant\<close>

definition roomPanels :: "room \<Rightarrow> int list" where
  "roomPanels r = nullish (r_assignedPanels r) []"

text \<open>occupied == (assigned panel list non-empty)\<close>

definition occupiedOk :: "room \<Rightarrow> bool" where
  "occupiedOk r \<longleftrightarrow> (r_isOccupied r \<longleftrightarrow> roomPanels r \<noteq> [])"

text \<open>The rooms whose list holds the panel.\<close>

definition roomsOf :: "int \<Rightarrow> store \<Rightarrow> room list" where
  "roomsOf panelId s = filter (\<lambda>r. includesPanel r panelId) (getRooms s)"

definition roomInvariant :: "store \<Rightarrow> bool" where
  "roomInvariant s \<longleftrightarrow>
     list_all occupiedOk (getRooms s) \<and>
     list_all (\<lambda>panelId. length (roomsOf panelId s) \<le> 1) (concat (map roomPanels (getRooms s)))"

text \<open>
  What the constructors establish and a JavaScript \<^verbatim>\<open>Map\<close> guarantees: every room is
  stored under its own \<^verbatim>\<open>id\<close>, and no key occurs twice.
\<close>

definition roomsKeyedById :: "store \<Rightarrow> bool" where
  "roomsKeyedById s \<longleftrightarrow>
     distinct (map fst (rooms s)) \<and> list_all (\<lambda>kr. r_id (snd kr) = fst kr) (rooms s)"

section \<open>The store at start-up\<close>

text \<open>
  The constructor of \<^verbatim>\<open>MemStorage\<close> and its \<^verbatim>\<open>initializeData\<close>.  The permission
  bundles are serialised with \<^verbatim>\<open>JSON.stringify\<close>; \<open>clock k\<close> is the \<open>k\<close>-th reading of
  \<^verbatim>\<open>new Date()\<close> while the constructor runs.
\<close>

record permissionFlags =
  viewCandidates :: bool
  manageCandidates :: bool
  viewPanels :: bool
  managePanels :: bool
  viewRooms :: bool
  manageRooms :: bool
  viewFeedback :: bool
  provideFeedback :: bool
  viewAnalytics :: bool
  manageUsers :: bool
  managePermissions :: bool

definition jsonField :: "string \<Rightarrow> bool \<Rightarrow> string" where
  "jsonField k b = [CHR 0x22] @ k @ [CHR 0x22] @ '':'' @ (if b then ''true'' else ''false'')"

definition stringifyPermissions :: "permissionFlags \<Rightarrow> string" where
  "stringifyPermissions f =
     ''{'' @ jsonField ''viewCandidates'' (viewCandidates f) @
     '','' @ jsonField ''manageCandidates'' (manageCandidates f) @
     '','' @ jsonField ''viewPanels'' (viewPanels f) @
     '','' @ jsonField ''managePanels'' (managePanels f) @
     '','' @ jsonField ''viewRooms'' (viewRooms f) @
     '','' @ jsonField ''manageRooms'' (manageRooms f) @
     '','' @ jsonField ''viewFeedback'' (viewFeedback f) @
     '','' @ jsonField ''provideFeedback'' (provideFeedback f) @
     '','' @ jsonField ''viewAnalytics'' (viewAnalytics f) @
     '','' @ jsonField ''manageUsers'' (manageUsers f) @
     '','' @ jsonField ''managePermissions'' (managePermissions f) @ ''}''"

definition emptyStore :: store where
  "emptyStore = \<lparr>users = [], candidates = [], panels = [], feedbacks = [], rooms = [],
     candidateFeedbacks = [], rolePermissions = [],
     userCurrentId = 1, candidateCurrentId = 1, panelCurrentId = 1, feedbackCurrentId = 1,
     roomCurrentId = 1, candidateFeedbackCurrentId = 1, rolePermissionCurrentId = 1\<rparr>"

definition initializeData :: "(nat \<Rightarrow> date) \<Rightarrow> operation list" where
  "initializeData clock =
     [CreateRolePermission (clock 0)
        \<lparr>irp_role = ''admin'',
         irp_permissions = stringifyPermissions
           \<lparr>viewCandidates = True, manageCandidates = True, viewPanels = True,
            managePanels = True, viewRooms = True, manageRooms = True, viewFeedback = True,
            provideFeedback = True, viewAnalytics = True, manageUsers = True,
            managePermissions = True\<rparr>,
         irp_description = Some ''Full administrative access''\<rparr>,
      CreateRolePermission (clock 1)
        \<lparr>irp_role = ''panel'',
         irp_permissions = stringifyPermissions
           \<lparr>viewCandidates = True, manageCandidates = False, viewPanels = False,
            managePanels = False, viewRooms = True, manageRooms = False, viewFeedback = False,
            provideFeedback = True, viewAnalytics = False, manageUsers = False,
            managePermissions = False\<rparr>,
         irp_description = Some ''Panel member with access to interview candidates''\<rparr>,
      CreateRolePermission (clock 2)
        \<lparr>irp_role = ''operations_lead'',
         irp_permissions = stringifyPermissions
           \<lparr>viewCandidates = True, manageCandidates = True, viewPanels = True,
            managePanels = True, viewRooms = True, manageRooms = True, viewFeedback = True,
            provideFeedback = False, viewAnalytics = True, manageUsers = False,
            managePermissions = False\<rparr>,
         irp_description = Some ''Operations lead with access to manage panels and rooms''\<rparr>,
      CreateRolePermission (clock 3)
        \<lparr>irp_role = ''hr'',
         irp_permissions = stringifyPermissions
           \<lparr>viewCandidates = True, manageCandidates = False, viewPanels = True,
            managePanels = False, viewRooms = True, manageRooms = False, viewFeedback = True,
            provideFeedback = False, viewAnalytics = True, manageUsers = False,
            managePermissions = False\<rparr>,
         irp_description = Some ''HR personnel with limited access''\<rparr>,
      CreateUser (clock 4)
        \<lparr>iu_username = ''admin'', iu_password = ''admin123'', iu_role = Some ''admin'',
         iu_name = ''Admin User'', iu_email = ''admin@example.com'',
         iu_permissions = Some [], iu_isActive = Some True\<rparr>,
      CreateUser (clock 5)
        \<lparr>iu_username = ''panel1'', iu_password = ''panel123'', iu_role = Some ''panel'',
         iu_name = ''Panel User'', iu_email = ''panel@example.com'',
         iu_permissions = Some [], iu_isActive = Some True\<rparr>,
      CreateUser (clock 6)
        \<lparr>iu_username = ''hr1'', iu_password = ''hr123'', iu_role = Some ''hr'',
         iu_name = ''HR User'', iu_email = ''hr@example.com'',
         iu_permissions = Some [''view_all_feedback''], iu_isActive = Some True\<rparr>,
      CreateUser (clock 7)
        \<lparr>iu_username = ''ops1'', iu_password = ''ops123'', iu_role = Some ''operations_lead'',
         iu_name = ''Operations Lead'', iu_email = ''ops@example.com'',
         iu_permissions = Some [], iu_isActive = Some True\<rparr>,
      CreatePanel
        \<lparr>ip_name = ''Panel 1'', ip_roomNo = ''101'', ip_isActive = Some True,
         ip_currentCandidate = None, ip_panelMembers = [''Panel User'']\<rparr>,
      CreateRoom
        \<lparr>ir_roomNumber = ''101'', ir_capacity = 5, ir_floor = ''1st'', ir_type = ''Technical'',
         ir_isOccupied = Some True, ir_assignedPanels = Some [1]\<rparr>,
      CreateRoom
        \<lparr>ir_roomNumber = ''102'', ir_capacity = 3, ir_floor = ''1st'', ir_type = ''HR'',
         ir_isOccupied = Some False, ir_assignedPanels = Some []\<rparr>,
      CreateRoom
        \<lparr>ir_roomNumber = ''201'', ir_capacity = 8, ir_floor = ''2nd'', ir_type = ''Manager'',
         ir_isOccupied = Some False, ir_assignedPanels = Some []\<rparr>]"

definition newMemStorage :: "(nat \<Rightarrow> date) \<Rightarrow> store" where
  "newMemStorage clock = run (initializeData clock) emptyStore"

section \<open>What an update keeps\<close>

text \<open>
  An update keeps the absent fields: every field that the partial does not carry has the
  value in \<open>e'\<close> that it has in \<open>e\<close>.
\<close>

definition keepsAbsentUser :: "userUpdates \<Rightarrow> user \<Rightarrow> user \<Rightarrow> bool" where
  "keepsAbsentUser p e e' \<longleftrightarrow>
     (uu_id p = None \<longrightarrow> u_id e' = u_id e) \<and>
     (uu_username p = None \<longrightarrow> u_username e' = u_username e) \<and>
     (uu_password p = None \<longrightarrow> u_password e' = u_password e) \<and>
     (uu_role p = None \<longrightarrow> u_role e' = u_role e) \<and>
     (uu_name p = None \<longrightarrow> u_name e' = u_name e) \<and>
     (uu_email p = None \<longrightarrow> u_email e' = u_email e) \<and>
     (uu_permissions p = None \<longrightarrow> u_permissions e' = u_permissions e) \<and>
     (uu_isActive p = None \<longrightarrow> u_isActive e' = u_isActive e) \<and>
     (uu_createdAt p = None \<longrightarrow> u_createdAt e' = u_createdAt e)"

definition keepsAbsentCandidate :: "candidateUpdates \<Rightarrow> candidate \<Rightarrow> candidate \<Rightarrow> bool" where
  "keepsAbsentCandidate p e e' \<longleftrightarrow>
     (cu_id p = None \<longrightarrow> c_id e' = c_id e) \<and>
     (cu_serialNo p = None \<longrightarrow> c_serialNo e' = c_serialNo e) \<and>
     (cu_name p = None \<longrightarrow> c_name e' = c_name e) \<and>
     (cu_email p = None \<longrightarrow> c_email e' = c_email e) \<and>
     (cu_position p = None \<longrightarrow> c_position e' = c_position e) \<and>
     (cu_timestamp p = None \<longrightarrow> c_timestamp e' = c_timestamp e) \<and>
     (cu_status p = None \<longrightarrow> c_status e' = c_status e) \<and>
     (cu_currentRound p = None \<longrightarrow> c_currentRound e' = c_currentRound e) \<and>
     (cu_assignedPanel p = None \<longrightarrow> c_assignedPanel e' = c_assignedPanel e) \<and>
     (cu_roomNo p = None \<longrightarrow> c_roomNo e' = c_roomNo e) \<and>
     (cu_qrCodeUrl p = None \<longrightarrow> c_qrCodeUrl e' = c_qrCodeUrl e)"

definition keepsAbsentPanel :: "panelUpdates \<Rightarrow> panel \<Rightarrow> panel \<Rightarrow> bool" where
  "keepsAbsentPanel p e e' \<longleftrightarrow>
     (pu_id p = None \<longrightarrow> p_id e' = p_id e) \<and>
     (pu_name p = None \<longrightarrow> p_name e' = p_name e) \<and>
     (pu_roomNo p = None \<longrightarrow> p_roomNo e' = p_roomNo e) \<and>
     (pu_isActive p = None \<longrightarrow> p_isActive e' = p_isActive e) \<and>
     (pu_currentCandidate p = None \<longrightarrow> p_currentCandidate e' = p_currentCandidate e) \<and>
     (pu_panelMembers p = None \<longrightarrow> p_panelMembers e' = p_panelMembers e)"

definition keepsAbsentRoom :: "roomUpdates \<Rightarrow> room \<Rightarrow> room \<Rightarrow> bool" where
  "keepsAbsentRoom p e e' \<longleftrightarrow>
     (ru_id p = None \<longrightarrow> r_id e' = r_id e) \<and>
     (ru_roomNumber p = None \<longrightarrow> r_roomNumber e' = r_roomNumber e) \<and>
     (ru_capacity p = None \<longrightarrow> r_capacity e' = r_capacity e) \<and>
     (ru_floor p = None \<longrightarrow> r_floor e' = r_floor e) \<and>
     (ru_type p = None \<longrightarrow> r_type e' = r_type e) \<and>
     (ru_isOccupied p = None \<longrightarrow> r_isOccupied e' = r_isOccupied e) \<and>
     (ru_assignedPanels p = None \<longrightarrow> r_assignedPanels e' = r_assignedPanels e)"

text \<open>Every field of a role permission but \<^verbatim>\<open>updatedAt\<close>.\<close>

definition keepsAbsentRolePermission ::
  "rolePermissionUpdates \<Rightarrow> rolePermission \<Rightarrow> rolePermission \<Rightarrow> bool" where
  "keepsAbsentRolePermission p e e' \<longleftrightarrow>
     (rpu_id p = None \<longrightarrow> rp_id e' = rp_id e) \<and>
     (rpu_role p = None \<longrightarrow> rp_role e' = rp_role e) \<and>
     (rpu_permissions p = None \<longrightarrow> rp_permissions e' = rp_permissions e) \<and>
     (rpu_description p = None \<longrightarrow> rp_description e' = rp_description e) \<and>
     (rpu_createdAt p = None \<longrightarrow> rp_createdAt e' = rp_createdAt e)"

section \<open>Example stores\<close>

text \<open>
  The store of a server that started with the clock at 1000 and ticking once per reading,
  and that store after one manual registration at 5000 and the candidate's hand-over to
  panel 1.
\<close>

definition startClock :: "nat \<Rightarrow> date" where
  "startClock k = 1000 + int k"

definition demoStore :: store where
  "demoStore =
     snd (updateCandidate 1
            (noCandidateUpdates\<lparr>cu_status := Some ''in_process'', cu_assignedPanel := Some (Some 1)\<rparr>)
            (snd (manualCandidate 5000 ''Asha'' ''asha@example.com'' ''Engineer''
                    (newMemStorage startClock))))"

text \<open>The candidate of that store, and a feedback submission of panel 1.\<close>

definition demoCandidate :: candidate where
  "demoCandidate =
     \<lparr>c_id = 1, c_serialNo = ''WD-001'', c_name = ''Asha'', c_email = ''asha@example.com'',
      c_position = ''Engineer'', c_timestamp = 5000, c_status = ''in_process'',
      c_currentRound = ''gd'', c_assignedPanel = Some 1, c_roomNo = None,
      c_qrCodeUrl = Some ''https://api.qrserver.com/v1/create-qr-code/?data=WD-001&size=150x150''\<rparr>"

definition demoFeedback :: "int \<Rightarrow> string \<Rightarrow> string option \<Rightarrow> insertFeedback" where
  "demoFeedback candidateId decision nextRound =
     \<lparr>if_candidateId = candidateId, if_panelId = 1, if_round = ''gd'',
      if_technicalSkills = ''good'', if_communication = ''good'',
      if_detailedFeedback = ''Solid basics'', if_decision = decision,
      if_nextRound = nextRound, if_createdAt = 6000\<rparr>"

section \<open>Registrations\<close>

text \<open>
  The two endpoints that register a candidate under a generated serial number, as one
  request type; the candidates that the answers to a list of such requests carry, in
  order; and the store after the list.
\<close>

datatype registration =
    Webhook string string string date
  | Manual date string string string

fun register :: "registration \<Rightarrow> store \<Rightarrow> candidate response \<times> store" where
  "register (Webhook name email position timestamp) s =
     googleSheetsWebhook name email position timestamp s"
| "register (Manual now name email position) s = manualCandidate now name email position s"

fun registered :: "registration list \<Rightarrow> store \<Rightarrow> candidate list" where
  "registered [] s = []"
| "registered (r # rs) s =
     (case register r s of
        (Json code c, s') \<Rightarrow> c # registered rs s'
      | (Failure code msg, s') \<Rightarrow> registered rs s'
      | (Invalid code msg, s') \<Rightarrow> registered rs s')"

fun registerAll :: "registration list \<Rightarrow> store \<Rightarrow> store" where
  "registerAll [] s = s"
| "registerAll (r # rs) s = registerAll rs (snd (register r s))"

text \<open>
  The number that a string of decimal digits denotes, to read a serial number back.
\<close>

definition digitValue :: "char \<Rightarrow> nat" where
  "digitValue c = of_char c - 48"

definition decimalValue :: "string \<Rightarrow> nat" where
  "decimalValue str = foldl (\<lambda>a c. 10 * a + digitValue c) 0 str"

text \<open>
  The candidates' keys lie below the counter, as they do in a store that the constructor
  and the create calls have filled.
\<close>

definition candidateKeysBelowCounter :: "store \<Rightarrow> bool" where
  "candidateKeysBelowCounter s \<longleftrightarrow> list_all (\<lambda>k. k < candidateCurrentId s) (map fst (candidates s))"

text \<open>Three registrations on the example store; the second lacks the name.\<close>

definition demoRegistrations :: "registration list" where
  "demoRegistrations =
     [Manual 7000 ''Ben'' ''ben@example.com'' ''Analyst'',
      Manual 7001 [] ''nobody@example.com'' ''Analyst'',
      Webhook ''Cy'' ''cy@example.com'' ''Designer'' 7002]"

section \<open>Rooms, pointwise\<close>

text \<open>
  The room that \<^verbatim>\<open>removePanelFromRoom\<close> stores for a room that lists the panel (any
  other room stays as it is), the room that \<^verbatim>\<open>assignPanelToRoom\<close> stores, and a change
  of the rooms map entry by entry.
\<close>

definition detach :: "int \<Rightarrow> room \<Rightarrow> room" where
  "detach p r =
     (if includesPanel r p
      then r\<lparr>r_assignedPanels := Some (filter (\<lambda>i. i \<noteq> p) (roomPanels r)),
             r_isOccupied := (length (filter (\<lambda>i. i \<noteq> p) (roomPanels r)) > 0)\<rparr>
      else r)"

definition attach :: "int \<Rightarrow> room \<Rightarrow> room" where
  "attach p r = r\<lparr>r_assignedPanels := Some (roomPanels r @ [p]), r_isOccupied := True\<rparr>"

definition mapRooms :: "(int \<Rightarrow> room \<Rightarrow> room) \<Rightarrow> (int \<times> room) list \<Rightarrow> (int \<times> room) list" where
  "mapRooms g al = map (\<lambda>kr. (fst kr, g (fst kr) (snd kr))) al"

section \<open>Example rooms\<close>

text \<open>
  Two bodies for POST /api/rooms that pass the schema: an occupied room without panels,
  and an unoccupied room that lists panel 1, which room 1 lists already; and the start-up
  store after the second was posted.
\<close>

definition demoRoomA :: insertRoom where
  "demoRoomA = \<lparr>ir_roomNumber = ''301'', ir_capacity = 4, ir_floor = ''3rd'', ir_type = ''General'',
                 ir_isOccupied = Some True, ir_assignedPanels = Some []\<rparr>"

definition demoRoomB :: insertRoom where
  "demoRoomB = \<lparr>ir_roomNumber = ''302'', ir_capacity = 4, ir_floor = ''3rd'', ir_type = ''General'',
                 ir_isOccupied = Some False, ir_assignedPanels = Some [1]\<rparr>"

definition doubleBooked :: store where
  "doubleBooked = snd (postRoom (Some demoRoomB) (newMemStorage startClock))"

section \<open>The queue position, as specified\<close>

text \<open>
  In the specification's words: the candidates of the same round, with a status of
  \<open>registered\<close> or \<open>in_queue\<close>, and a strictly earlier registration; one plus their
  number; and they in ascending order of registration.
\<close>

definition strictlyEarlier :: "candidate \<Rightarrow> candidate list \<Rightarrow> candidate list" where
  "strictlyEarlier candidate allCandidates =
     filter (\<lambda>c. inQueueWith candidate c \<and> c_timestamp c < c_timestamp candidate) allCandidates"

definition specQueuePosition :: "candidate \<Rightarrow> candidate list \<Rightarrow> int" where
  "specQueuePosition candidate allCandidates = 1 + int (length (strictlyEarlier candidate allCandidates))"

definition specCandidatesAhead :: "candidate \<Rightarrow> candidate list \<Rightarrow> candidate list" where
  "specCandidatesAhead candidate allCandidates =
     sort_key c_timestamp (strictlyEarlier candidate allCandidates)"

text \<open>
  The candidates of the queue that registered at the very time of the candidate at index
  \<open>i\<close> and stand before it in the list; and the condition that no other candidate of the
  queue has the email of the candidate at index \<open>i\<close>, by which the page finds it.
\<close>

definition tiedBefore :: "nat \<Rightarrow> candidate \<Rightarrow> candidate list \<Rightarrow> candidate list" where
  "tiedBefore i candidate allCandidates =
     filter (\<lambda>c. inQueueWith candidate c \<and> c_timestamp c = c_timestamp candidate)
       (take i allCandidates)"

definition emailUniqueInQueue :: "nat \<Rightarrow> candidate list \<Rightarrow> bool" where
  "emailUniqueInQueue i allCandidates \<longleftrightarrow>
     (\<forall>j < length allCandidates. j \<noteq> i \<longrightarrow> inQueueWith (allCandidates ! i) (allCandidates ! j) \<longrightarrow>
        c_email (allCandidates ! j) \<noteq> c_email (allCandidates ! i))"

text \<open>A registered candidate of round \<open>gd\<close>, for examples.\<close>

definition queueCandidate :: "int \<Rightarrow> string \<Rightarrow> date \<Rightarrow> candidate" where
  "queueCandidate i email timestamp =
     \<lparr>c_id = i, c_serialNo = ''WD-'' @ padStart 3 (CHR ''0'') (toString (nat i)), c_name = ''Candidate'',
      c_email = email, c_position = ''Engineer'', c_timestamp = timestamp,
      c_status = ''registered'', c_currentRound = ''gd'', c_assignedPanel = None,
      c_roomNo = None, c_qrCodeUrl = None\<rparr>"

chapter \<open>Properties\<close>

section \<open>Identifiers\<close>

text \<open>Only a create call moves a counter, and only its own.\<close>

lemma currentId_updateUser: "currentId k (snd (updateUser i u s)) = currentId k s"
  by (cases k) (simp_all add: updateUser_def Let_def split: option.splits)

lemma currentId_deleteUser: "currentId k (snd (deleteUser i s)) = currentId k s"
  by (cases k) (simp_all add: deleteUser_def)

lemma currentId_updateCandidate: "currentId k (snd (updateCandidate i u s)) = currentId k s"
  by (cases k) (simp_all add: updateCandidate_def Let_def split: option.splits)

lemma currentId_updatePanel: "currentId k (snd (updatePanel i u s)) = currentId k s"
  by (cases k) (simp_all add: updatePanel_def Let_def split: option.splits)

lemma currentId_updateRoom: "currentId k (snd (updateRoom i u s)) = currentId k s"
  by (cases k) (simp_all add: updateRoom_def Let_def split: option.splits)

lemma currentId_updateRolePermission:
  "currentId k (snd (updateRolePermission now i u s)) = currentId k s"
  by (cases k) (simp_all add: updateRolePermission_def Let_def split: option.splits)

lemma currentId_deleteRolePermission: "currentId k (snd (deleteRolePermission i s)) = currentId k s"
  by (cases k) (simp_all add: deleteRolePermission_def)

lemma currentId_rooms_update: "currentId k (s\<lparr>rooms := rs\<rparr>) = currentId k s"
  by (cases k) simp_all

lemma currentId_assignPanelToRoom: "currentId k (snd (assignPanelToRoom a p s)) = currentId k s"
  by (simp add: assignPanelToRoom_def Let_def currentId_updatePanel currentId_rooms_update
      split: option.splits)

lemma currentId_removePanelFromRoom: "currentId k (snd (removePanelFromRoom a p s)) = currentId k s"
  by (simp add: removePanelFromRoom_def Let_def currentId_updatePanel currentId_rooms_update
      split: option.splits)

lemmas currentId_frame = currentId_updateUser currentId_deleteUser currentId_updateCandidate
  currentId_updatePanel currentId_updateRoom currentId_updateRolePermission
  currentId_deleteRolePermission currentId_assignPanelToRoom currentId_removePanelFromRoom

lemmas create_defs = createUser_def createCandidate_def createPanel_def createFeedback_def
  createRoom_def createCandidateFeedback_def createRolePermission_def

lemma exec_None: "fst (exec x s) = None \<Longrightarrow> currentId k (snd (exec x s)) = currentId k s"
  by (cases x) (simp_all add: currentId_frame create_defs Let_def)

lemma exec_Some:
  assumes "fst (exec x s) = Some (k', i)"
  shows "i = currentId k' s \<and> currentId k (snd (exec x s)) = (if k = k' then i + 1 else currentId k s)"
  using assms by (cases x; cases k) (auto simp add: create_defs Let_def)

lemma createdIds_lower: "i \<in> set (createdIds k xs s) \<Longrightarrow> currentId k s \<le> i"
proof (induction xs arbitrary: s)
  case Nil
  then show ?case by simp
next
  case (Cons x xs)
  obtain r s' where e: "exec x s = (r, s')" by (cases "exec x s")
  show ?case
  proof (cases r)
    case None
    with e have "currentId k s' = currentId k s" using exec_None [of x s k] by simp
    moreover from Cons.prems e None have "i \<in> set (createdIds k xs s')" by simp
    ultimately show ?thesis using Cons.IH [of s'] by simp
  next
    case (Some ki)
    obtain k' j where ki: "ki = (k', j)" by (cases ki)
    from e Some ki have f: "fst (exec x s) = Some (k', j)" by simp
    from exec_Some [OF f, of k] e
    have j: "j = currentId k' s" and c: "currentId k s' = (if k = k' then j + 1 else currentId k s)"
      by simp_all
    from Cons.prems e Some ki
    have "(k' = k \<and> i = j) \<or> i \<in> set (createdIds k xs s')" by (auto split: if_splits)
    then show ?thesis
    proof
      assume "k' = k \<and> i = j" with j show ?thesis by simp
    next
      assume "i \<in> set (createdIds k xs s')"
      then have "currentId k s' \<le> i" by (rule Cons.IH)
      with c j show ?thesis by (simp split: if_splits)
    qed
  qed
qed

lemma createdIds_increasing: "sorted_wrt (<) (createdIds k xs s)"
proof (induction xs arbitrary: s)
  case Nil
  show ?case by simp
next
  case (Cons x xs)
  obtain r s' where e: "exec x s = (r, s')" by (cases "exec x s")
  show ?case
  proof (cases r)
    case None
    with e Cons.IH [of s'] show ?thesis by simp
  next
    case (Some ki)
    obtain k' j where ki: "ki = (k', j)" by (cases ki)
    from e Some ki have f: "fst (exec x s) = Some (k', j)" by simp
    from exec_Some [OF f, of k] e
    have c: "currentId k s' = (if k = k' then j + 1 else currentId k s)" by simp
    show ?thesis
    proof (cases "k' = k")
      case True
      with c have "\<forall>i \<in> set (createdIds k xs s'). j < i"
        using createdIds_lower [of _ k xs s'] by fastforce
      with e Some ki True Cons.IH [of s'] show ?thesis by simp
    next
      case False
      with e Some ki Cons.IH [of s'] show ?thesis by simp
    qed
  qed
qed

text \<open>
  C6.  Along every run of the store's operations, from every store, the identifiers that
  the create calls of one kind return are strictly increasing; so none is returned twice,
  whatever was deleted in between.
\<close>

theorem C6_created_ids_strictly_increasing:
  "sorted_wrt (<) (createdIds k xs s) \<and> distinct (createdIds k xs s)"
  using createdIds_increasing [of k xs s] by (simp add: strict_sorted_iff)

section \<open>The store at start-up and the example stores, evaluated\<close>

lemmas start_defs = newMemStorage_def initializeData_def emptyStore_def createRolePermission_def
  createUser_def createPanel_def createRoom_def Let_def startClock_def orElse_def nullish_def

lemma start_users: "users (newMemStorage clock) =
  [(1, \<lparr>u_id = 1, u_username = ''admin'', u_password = ''admin123'', u_role = ''admin'',
         u_name = ''Admin User'', u_email = ''admin@example.com'', u_permissions = Some [],
         u_isActive = True, u_createdAt = clock 4\<rparr>),
   (2, \<lparr>u_id = 2, u_username = ''panel1'', u_password = ''panel123'', u_role = ''panel'',
         u_name = ''Panel User'', u_email = ''panel@example.com'', u_permissions = Some [],
         u_isActive = True, u_createdAt = clock 5\<rparr>),
   (3, \<lparr>u_id = 3, u_username = ''hr1'', u_password = ''hr123'', u_role = ''hr'',
         u_name = ''HR User'', u_email = ''hr@example.com'',
         u_permissions = Some [''view_all_feedback''], u_isActive = True, u_createdAt = clock 6\<rparr>),
   (4, \<lparr>u_id = 4, u_username = ''ops1'', u_password = ''ops123'', u_role = ''operations_lead'',
         u_name = ''Operations Lead'', u_email = ''ops@example.com'', u_permissions = Some [],
         u_isActive = True, u_createdAt = clock 7\<rparr>)]"
  by (simp add: start_defs)

lemma start_rooms: "rooms (newMemStorage clock) =
  [(1, \<lparr>r_id = 1, r_roomNumber = ''101'', r_capacity = 5, r_floor = ''1st'', r_type = ''Technical'',
         r_isOccupied = True, r_assignedPanels = Some [1]\<rparr>),
   (2, \<lparr>r_id = 2, r_roomNumber = ''102'', r_capacity = 3, r_floor = ''1st'', r_type = ''HR'',
         r_isOccupied = False, r_assignedPanels = Some []\<rparr>),
   (3, \<lparr>r_id = 3, r_roomNumber = ''201'', r_capacity = 8, r_floor = ''2nd'', r_type = ''Manager'',
         r_isOccupied = False, r_assignedPanels = Some []\<rparr>)]"
  by (simp add: start_defs)

lemma start_panels: "panels (newMemStorage clock) =
  [(1, \<lparr>p_id = 1, p_name = ''Panel 1'', p_roomNo = ''101'', p_isActive = True,
         p_currentCandidate = None, p_panelMembers = [''Panel User'']\<rparr>)]"
  by (simp add: start_defs)

lemma start_candidates: "candidates (newMemStorage clock) = []"
  by (simp add: start_defs)

lemma start_counters:
  "candidateCurrentId (newMemStorage clock) = 1" "roomCurrentId (newMemStorage clock) = 4"
  "feedbackCurrentId (newMemStorage clock) = 1" "userCurrentId (newMemStorage clock) = 5"
  "panelCurrentId (newMemStorage clock) = 2"
  by (simp_all add: start_defs)

lemma start_rolePermission1:
  "map_of (rolePermissions (newMemStorage clock)) 1 =
     Some \<lparr>rp_id = 1, rp_role = ''admin'',
         rp_permissions = stringifyPermissions
           \<lparr>viewCandidates = True, manageCandidates = True, viewPanels = True,
            managePanels = True, viewRooms = True, manageRooms = True, viewFeedback = True,
            provideFeedback = True, viewAnalytics = True, manageUsers = True,
            managePermissions = True\<rparr>,
         rp_description = Some ''Full administrative access'',
         rp_createdAt = clock 0, rp_updatedAt = clock 0\<rparr>"
  by (simp add: start_defs)

lemma toString_digit: "n < 10 \<Longrightarrow> toString n = [digitChar n]"
  by (subst toString.simps) simp

lemma demo_candidates: "candidates demoStore = [(1, demoCandidate)]"
  by (simp add: demoStore_def demoCandidate_def manualCandidate_def getCandidates_def
      start_candidates start_counters serialNoFor_def padStart_def toString_digit digitChar_def
      qrCodeUrlFor_def numeral_2_eq_2 createCandidate_def Let_def orElse_def updateCandidate_def
      spreadCandidate_def noCandidateUpdates_def over_def)

lemma demo_others:
  "users demoStore = users (newMemStorage startClock)"
  "panels demoStore = panels (newMemStorage startClock)"
  "rooms demoStore = rooms (newMemStorage startClock)"
  "rolePermissions demoStore = rolePermissions (newMemStorage startClock)"
  "feedbacks demoStore = feedbacks (newMemStorage startClock)"
  "feedbackCurrentId demoStore = feedbackCurrentId (newMemStorage startClock)"
  by (simp_all add: demoStore_def manualCandidate_def createCandidate_def updateCandidate_def
      Let_def split_def split: option.splits)

section \<open>Partial updates\<close>

lemma over_None [simp]: "over old None = old"
  by (simp add: over_def)

lemma over_Some [simp]: "over old (Some v) = v"
  by (simp add: over_def)

lemma over_over [simp]: "over (over old upd) upd = over old upd"
  by (cases upd) simp_all

lemma updateUser_existing:
  "map_of (users s) i = Some e \<Longrightarrow>
   updateUser i p s =
     (Some (spreadUser e p), s\<lparr>users := AList.update i (spreadUser e p) (users s)\<rparr>)"
  by (simp add: updateUser_def Let_def)

lemma spreadUser_twice: "spreadUser (spreadUser e p) p = spreadUser e p"
  by (simp add: spreadUser_def)

lemma updateUser_twice:
  assumes "map_of (users s) i = Some e"
  shows "updateUser i p (snd (updateUser i p s)) = updateUser i p s"
proof -
  let ?s' = "s\<lparr>users := AList.update i (spreadUser e p) (users s)\<rparr>"
  have "map_of (users ?s') i = Some (spreadUser e p)"
    by (simp add: AList.update_conv')
  from updateUser_existing [OF this, of p] updateUser_existing [OF assms, of p]
  show ?thesis by (simp add: spreadUser_twice)
qed

lemma spreadUser_frame: "keepsAbsentUser p e (spreadUser e p)"
  unfolding keepsAbsentUser_def spreadUser_def by simp

lemma updateCandidate_existing:
  "map_of (candidates s) i = Some e \<Longrightarrow>
   updateCandidate i p s =
     (Some (spreadCandidate e p), s\<lparr>candidates := AList.update i (spreadCandidate e p) (candidates s)\<rparr>)"
  by (simp add: updateCandidate_def Let_def)

lemma spreadCandidate_twice: "spreadCandidate (spreadCandidate e p) p = spreadCandidate e p"
  by (simp add: spreadCandidate_def)

lemma updateCandidate_twice:
  assumes "map_of (candidates s) i = Some e"
  shows "updateCandidate i p (snd (updateCandidate i p s)) = updateCandidate i p s"
proof -
  let ?s' = "s\<lparr>candidates := AList.update i (spreadCandidate e p) (candidates s)\<rparr>"
  have "map_of (candidates ?s') i = Some (spreadCandidate e p)"
    by (simp add: AList.update_conv')
  from updateCandidate_existing [OF this, of p] updateCandidate_existing [OF assms, of p]
  show ?thesis by (simp add: spreadCandidate_twice)
qed

lemma spreadCandidate_frame: "keepsAbsentCandidate p e (spreadCandidate e p)"
  unfolding keepsAbsentCandidate_def spreadCandidate_def by simp

lemma updatePanel_existing:
  "map_of (panels s) i = Some e \<Longrightarrow>
   updatePanel i p s =
     (Some (spreadPanel e p), s\<lparr>panels := AList.update i (spreadPanel e p) (panels s)\<rparr>)"
  by (simp add: updatePanel_def Let_def)

lemma spreadPanel_twice: "spreadPanel (spreadPanel e p) p = spreadPanel e p"
  by (simp add: spreadPanel_def)

lemma updatePanel_twice:
  assumes "map_of (panels s) i = Some e"
  shows "updatePanel i p (snd (updatePanel i p s)) = updatePanel i p s"
proof -
  let ?s' = "s\<lparr>panels := AList.update i (spreadPanel e p) (panels s)\<rparr>"
  have "map_of (panels ?s') i = Some (spreadPanel e p)"
    by (simp add: AList.update_conv')
  from updatePanel_existing [OF this, of p] updatePanel_existing [OF assms, of p]
  show ?thesis by (simp add: spreadPanel_twice)
qed

lemma spreadPanel_frame: "keepsAbsentPanel p e (spreadPanel e p)"
  unfolding keepsAbsentPanel_def spreadPanel_def by simp

lemma updateRoom_existing:
  "map_of (rooms s) i = Some e \<Longrightarrow>
   updateRoom i p s =
     (Some (spreadRoom e p), s\<lparr>rooms := AList.update i (spreadRoom e p) (rooms s)\<rparr>)"
  by (simp add: updateRoom_def Let_def)

lemma spreadRoom_twice: "spreadRoom (spreadRoom e p) p = spreadRoom e p"
  by (simp add: spreadRoom_def)

lemma updateRoom_twice:
  assumes "map_of (rooms s) i = Some e"
  shows "updateRoom i p (snd (updateRoom i p s)) = updateRoom i p s"
proof -
  let ?s' = "s\<lparr>rooms := AList.update i (spreadRoom e p) (rooms s)\<rparr>"
  have "map_of (rooms ?s') i = Some (spreadRoom e p)"
    by (simp add: AList.update_conv')
  from updateRoom_existing [OF this, of p] updateRoom_existing [OF assms, of p]
  show ?thesis by (simp add: spreadRoom_twice)
qed

lemma spreadRoom_frame: "keepsAbsentRoom p e (spreadRoom e p)"
  unfolding keepsAbsentRoom_def spreadRoom_def by simp

lemma updateRolePermission_existing:
  "map_of (rolePermissions s) i = Some e \<Longrightarrow>
   updateRolePermission now i p s =
     (Some ((spreadRolePermission e p)\<lparr>rp_updatedAt := now\<rparr>),
      s\<lparr>rolePermissions :=
          AList.update i ((spreadRolePermission e p)\<lparr>rp_updatedAt := now\<rparr>) (rolePermissions s)\<rparr>)"
  by (simp add: updateRolePermission_def Let_def)

lemma spreadRolePermission_twice:
  "(spreadRolePermission ((spreadRolePermission e p)\<lparr>rp_updatedAt := now\<rparr>) p)\<lparr>rp_updatedAt := later\<rparr> =
   (spreadRolePermission e p)\<lparr>rp_updatedAt := later\<rparr>"
  by (simp add: spreadRolePermission_def)

lemma updateRolePermission_again:
  assumes "map_of (rolePermissions s) i = Some e"
  shows "updateRolePermission later i p (snd (updateRolePermission now i p s)) =
           (Some ((spreadRolePermission e p)\<lparr>rp_updatedAt := later\<rparr>),
            s\<lparr>rolePermissions :=
               AList.update i ((spreadRolePermission e p)\<lparr>rp_updatedAt := later\<rparr>)
                 (rolePermissions s)\<rparr>)"
proof -
  let ?e' = "(spreadRolePermission e p)\<lparr>rp_updatedAt := now\<rparr>"
  let ?s' = "s\<lparr>rolePermissions := AList.update i ?e' (rolePermissions s)\<rparr>"
  have "map_of (rolePermissions ?s') i = Some ?e'"
    by (simp add: AList.update_conv')
  from updateRolePermission_existing [OF this, of later p]
    updateRolePermission_existing [OF assms, of now p]
  show ?thesis by (simp add: spreadRolePermission_twice)
qed

lemma spreadRolePermission_frame:
  "keepsAbsentRolePermission p e ((spreadRolePermission e p)\<lparr>rp_updatedAt := now\<rparr>)"
  unfolding keepsAbsentRolePermission_def spreadRolePermission_def by simp

text \<open>
  C7, as the claim states it, fails for role permissions: \<^verbatim>\<open>updateRolePermission\<close> always
  sets \<^verbatim>\<open>updatedAt\<close> to the time of the call.  On the start-up store an update of role
  permission 1 that carries no field at all moves \<^verbatim>\<open>updatedAt\<close> from 1000 to 2000, and
  the same update applied again at 3000 does not yield the entity of the first application.
\<close>

theorem C7_updatedAt_changes_counterexample:
  "rpu_updatedAt noRolePermissionUpdates = None \<and>
   map_option rp_updatedAt (getRolePermission 1 (newMemStorage startClock)) = Some 1000 \<and>
   map_option rp_updatedAt
     (fst (updateRolePermission 2000 1 noRolePermissionUpdates (newMemStorage startClock))) = Some 2000 \<and>
   fst (updateRolePermission 3000 1 noRolePermissionUpdates
          (snd (updateRolePermission 2000 1 noRolePermissionUpdates (newMemStorage startClock)))) \<noteq>
   fst (updateRolePermission 2000 1 noRolePermissionUpdates (newMemStorage startClock))"
  using updateRolePermission_existing [OF start_rolePermission1 [of startClock], of 2000 noRolePermissionUpdates]
    updateRolePermission_again [OF start_rolePermission1 [of startClock], of 3000 noRolePermissionUpdates 2000]
  by (simp add: getRolePermission_def start_rolePermission1 noRolePermissionUpdates_def
      spreadRolePermission_def startClock_def)

text \<open>
  C7, amended.  For users, candidates, panels and rooms an update of an existing entity
  answers and stores the spread of the partial over the entity, keeps every absent field,
  and applying it a second time changes neither the answer nor the store.  For a role
  permission the same holds of every field but \<^verbatim>\<open>updatedAt\<close>, which is the time of the
  call; a second application at a later time yields the same entity up to \<^verbatim>\<open>updatedAt\<close>.
\<close>

theorem C7_update_keeps_absent_fields:
  "(map_of (users su) iu = Some eu \<longrightarrow>
      updateUser iu pu su =
        (Some (spreadUser eu pu), su\<lparr>users := AList.update iu (spreadUser eu pu) (users su)\<rparr>) \<and>
      keepsAbsentUser pu eu (spreadUser eu pu) \<and>
      updateUser iu pu (snd (updateUser iu pu su)) = updateUser iu pu su) \<and>
   (map_of (candidates sc) ic = Some ec \<longrightarrow>
      updateCandidate ic pc sc =
        (Some (spreadCandidate ec pc),
         sc\<lparr>candidates := AList.update ic (spreadCandidate ec pc) (candidates sc)\<rparr>) \<and>
      keepsAbsentCandidate pc ec (spreadCandidate ec pc) \<and>
      updateCandidate ic pc (snd (updateCandidate ic pc sc)) = updateCandidate ic pc sc) \<and>
   (map_of (panels sp) ip = Some ep \<longrightarrow>
      updatePanel ip pp sp =
        (Some (spreadPanel ep pp), sp\<lparr>panels := AList.update ip (spreadPanel ep pp) (panels sp)\<rparr>) \<and>
      keepsAbsentPanel pp ep (spreadPanel ep pp) \<and>
      updatePanel ip pp (snd (updatePanel ip pp sp)) = updatePanel ip pp sp) \<and>
   (map_of (rooms sr) ir = Some er \<longrightarrow>
      updateRoom ir pr sr =
        (Some (spreadRoom er pr), sr\<lparr>rooms := AList.update ir (spreadRoom er pr) (rooms sr)\<rparr>) \<and>
      keepsAbsentRoom pr er (spreadRoom er pr) \<and>
      updateRoom ir pr (snd (updateRoom ir pr sr)) = updateRoom ir pr sr) \<and>
   (map_of (rolePermissions sq) iq = Some eq \<longrightarrow>
      fst (updateRolePermission now iq pq sq) =
        Some ((spreadRolePermission eq pq)\<lparr>rp_updatedAt := now\<rparr>) \<and>
      keepsAbsentRolePermission pq eq ((spreadRolePermission eq pq)\<lparr>rp_updatedAt := now\<rparr>) \<and>
      fst (updateRolePermission later iq pq (snd (updateRolePermission now iq pq sq))) =
        Some ((spreadRolePermission eq pq)\<lparr>rp_updatedAt := later\<rparr>))"
proof (intro conjI impI)
  assume a: "map_of (rolePermissions sq) iq = Some eq"
  show "fst (updateRolePermission now iq pq sq) =
      Some ((spreadRolePermission eq pq)\<lparr>rp_updatedAt := now\<rparr>)"
    using updateRolePermission_existing [OF a, of now pq] by simp
  show "fst (updateRolePermission later iq pq (snd (updateRolePermission now iq pq sq))) =
      Some ((spreadRolePermission eq pq)\<lparr>rp_updatedAt := later\<rparr>)"
    using updateRolePermission_again [OF a, of later pq now] by simp
qed (rule spreadUser_frame spreadCandidate_frame spreadPanel_frame spreadRoom_frame
       spreadRolePermission_frame
     | erule updateUser_existing updateCandidate_existing updatePanel_existing updateRoom_existing
         updateUser_twice updateCandidate_twice updatePanel_twice updateRoom_twice)+

theorem C7_update_keeps_absent_fields_witness:
  "has (users demoStore) 1 \<and> has (candidates demoStore) 1 \<and> has (panels demoStore) 1 \<and>
   has (rooms demoStore) 1 \<and> has (rolePermissions demoStore) 1 \<and>
   updateUser 1 (noUserUpdates\<lparr>uu_name := Some ''Root''\<rparr>)
     (snd (updateUser 1 (noUserUpdates\<lparr>uu_name := Some ''Root''\<rparr>) demoStore)) =
   updateUser 1 (noUserUpdates\<lparr>uu_name := Some ''Root''\<rparr>) demoStore \<and>
   updateCandidate 1 noCandidateUpdates (snd (updateCandidate 1 noCandidateUpdates demoStore)) =
   updateCandidate 1 noCandidateUpdates demoStore \<and>
   updatePanel 1 noPanelUpdates (snd (updatePanel 1 noPanelUpdates demoStore)) =
   updatePanel 1 noPanelUpdates demoStore \<and>
   updateRoom 1 noRoomUpdates (snd (updateRoom 1 noRoomUpdates demoStore)) =
   updateRoom 1 noRoomUpdates demoStore \<and>
   map_option rp_updatedAt (fst (updateRolePermission 2000 1 noRolePermissionUpdates demoStore)) =
     Some 2000"
proof -
  obtain eu where hu: "map_of (users demoStore) 1 = Some eu"
    by (simp add: demo_others start_users)
  obtain ec where hc: "map_of (candidates demoStore) 1 = Some ec"
    by (simp add: demo_candidates)
  obtain ep where hp: "map_of (panels demoStore) 1 = Some ep"
    by (simp add: demo_others start_panels)
  obtain er where hr: "map_of (rooms demoStore) 1 = Some er"
    by (simp add: demo_others start_rooms)
  obtain eq where hq: "map_of (rolePermissions demoStore) 1 = Some eq"
    by (simp add: demo_others start_rolePermission1)
  note t = C7_update_keeps_absent_fields [of demoStore 1 eu "noUserUpdates\<lparr>uu_name := Some ''Root''\<rparr>"
      demoStore 1 ec noCandidateUpdates demoStore 1 ep noPanelUpdates
      demoStore 1 er noRoomUpdates demoStore 1 eq 2000 noRolePermissionUpdates 3000]
  have "has (users demoStore) 1" "has (candidates demoStore) 1" "has (panels demoStore) 1"
    "has (rooms demoStore) 1" "has (rolePermissions demoStore) 1"
    using hu hc hp hr hq by (simp_all add: has_def)
  moreover have "updateUser 1 (noUserUpdates\<lparr>uu_name := Some ''Root''\<rparr>)
     (snd (updateUser 1 (noUserUpdates\<lparr>uu_name := Some ''Root''\<rparr>) demoStore)) =
     updateUser 1 (noUserUpdates\<lparr>uu_name := Some ''Root''\<rparr>) demoStore"
    using t hu by blast
  moreover have "updateCandidate 1 noCandidateUpdates
     (snd (updateCandidate 1 noCandidateUpdates demoStore)) =
     updateCandidate 1 noCandidateUpdates demoStore"
    using t hc by blast
  moreover have "updatePanel 1 noPanelUpdates (snd (updatePanel 1 noPanelUpdates demoStore)) =
     updatePanel 1 noPanelUpdates demoStore"
    using t hp by blast
  moreover have "updateRoom 1 noRoomUpdates (snd (updateRoom 1 noRoomUpdates demoStore)) =
     updateRoom 1 noRoomUpdates demoStore"
    using t hr by blast
  moreover have "fst (updateRolePermission 2000 1 noRolePermissionUpdates demoStore) =
     Some ((spreadRolePermission eq noRolePermissionUpdates)\<lparr>rp_updatedAt := 2000\<rparr>)"
    using t hq by blast
  then have "map_option rp_updatedAt
     (fst (updateRolePermission 2000 1 noRolePermissionUpdates demoStore)) = Some 2000"
    by simp
  ultimately show ?thesis by blast
qed

section \<open>Feedback and the candidate's status\<close>

lemma createFeedback_candidates: "candidates (snd (createFeedback fb s)) = candidates s"
  by (simp add: createFeedback_def Let_def)

lemma postFeedback_existing:
  assumes "getCandidate (if_candidateId fb) s = Some c" and "c_id c = if_candidateId fb"
  shows "getCandidate (if_candidateId fb) (snd (postFeedback (Some fb) s)) =
     Some (spreadCandidate c
       (noCandidateUpdates\<lparr>
          cu_status := Some (if if_decision fb = ''reject'' then ''rejected'' else ''in_queue''),
          cu_currentRound := (if if_decision fb = ''next'' then truthy (if_nextRound fb) else None),
          cu_assignedPanel := Some None\<rparr>))"
  using assms
  by (simp add: postFeedback_def getCandidate_def createFeedback_candidates split_def Let_def
        updateCandidate_def AList.update_conv' truthy_def)

lemma spread_feedback:
  "spreadCandidate c (noCandidateUpdates\<lparr>cu_status := Some st, cu_currentRound := r,
      cu_assignedPanel := Some None\<rparr>) =
   c\<lparr>c_status := st, c_currentRound := over (c_currentRound c) r, c_assignedPanel := None\<rparr>"
  by (simp add: spreadCandidate_def noCandidateUpdates_def)

lemma demo_getCandidate: "getCandidate 1 demoStore = Some demoCandidate"
  by (simp add: getCandidate_def demo_candidates)

text \<open>
  C1, as the claim states it, fails when \<^verbatim>\<open>nextRound\<close> is present and non-null but the
  empty string: the route spreads \<^verbatim>\<open>currentRound\<close> only when it is truthy, so a
  \<open>next\<close> decision with the empty string for a round leaves the candidate in round \<open>gd\<close>.
\<close>

theorem C1_empty_nextRound_counterexample:
  "if_decision (demoFeedback 1 ''next'' (Some [])) = ''next'' \<and>
   if_nextRound (demoFeedback 1 ''next'' (Some [])) = Some [] \<and>
   map_option c_currentRound (getCandidate 1 demoStore) = Some ''gd'' \<and>
   map_option c_currentRound
     (getCandidate 1 (snd (postFeedback (Some (demoFeedback 1 ''next'' (Some []))) demoStore))) =
     Some ''gd''"
proof -
  have "getCandidate (if_candidateId (demoFeedback 1 ''next'' (Some []))) demoStore =
      Some demoCandidate"
    by (simp add: demoFeedback_def demo_getCandidate)
  from postFeedback_existing [OF this]
  show ?thesis
    by (simp add: demoFeedback_def demo_getCandidate demoCandidate_def truthy_def spread_feedback)
qed

text \<open>
  C1, amended.  A feedback submission for an existing candidate (one that is stored under
  its own id) turns the candidate into: decision \<open>next\<close>, status \<open>in_queue\<close> and the round
  \<^verbatim>\<open>nextRound\<close> when that is present, non-null and not empty, the old round otherwise;
  decision \<open>reject\<close>, status \<open>rejected\<close> and the old round; decision \<open>hold\<close>, status
  \<open>in_queue\<close> and the old round.  In the three cases \<^verbatim>\<open>assignedPanel\<close> is null and no
  other field changes.
\<close>

theorem C1_feedback_transition:
  assumes "getCandidate (if_candidateId fb) s = Some c" and "c_id c = if_candidateId fb"
  shows "(if_decision fb = ''next'' \<longrightarrow>
            getCandidate (if_candidateId fb) (snd (postFeedback (Some fb) s)) =
              Some (c\<lparr>c_status := ''in_queue'',
                      c_currentRound := (case if_nextRound fb of
                                           None \<Rightarrow> c_currentRound c
                                         | Some r \<Rightarrow> if r = [] then c_currentRound c else r),
                      c_assignedPanel := None\<rparr>)) \<and>
         (if_decision fb = ''reject'' \<longrightarrow>
            getCandidate (if_candidateId fb) (snd (postFeedback (Some fb) s)) =
              Some (c\<lparr>c_status := ''rejected'', c_assignedPanel := None\<rparr>)) \<and>
         (if_decision fb = ''hold'' \<longrightarrow>
            getCandidate (if_candidateId fb) (snd (postFeedback (Some fb) s)) =
              Some (c\<lparr>c_status := ''in_queue'', c_assignedPanel := None\<rparr>))"
  unfolding postFeedback_existing [OF assms] spread_feedback
  by (simp add: truthy_def split: option.splits)

theorem C1_feedback_transition_witness:
  "getCandidate 1 demoStore = Some demoCandidate \<and> c_id demoCandidate = 1 \<and>
   getCandidate 1
     (snd (postFeedback (Some (demoFeedback 1 ''next'' (Some ''screening''))) demoStore)) =
     Some (demoCandidate\<lparr>c_status := ''in_queue'', c_currentRound := ''screening'',
                          c_assignedPanel := None\<rparr>) \<and>
   getCandidate 1 (snd (postFeedback (Some (demoFeedback 1 ''reject'' None)) demoStore)) =
     Some (demoCandidate\<lparr>c_status := ''rejected'', c_assignedPanel := None\<rparr>) \<and>
   getCandidate 1 (snd (postFeedback (Some (demoFeedback 1 ''hold'' None)) demoStore)) =
     Some (demoCandidate\<lparr>c_status := ''in_queue'', c_assignedPanel := None\<rparr>)"
proof -
  have g: "getCandidate (if_candidateId (demoFeedback 1 d r)) demoStore = Some demoCandidate"
    and i: "c_id demoCandidate = if_candidateId (demoFeedback 1 d r)" for d r
    by (simp_all add: demoFeedback_def demo_getCandidate demoCandidate_def)
  from C1_feedback_transition [OF g i, of "''next''" "Some ''screening''"]
    C1_feedback_transition [OF g i, of "''reject''" None] C1_feedback_transition [OF g i, of "''hold''" None]
  show ?thesis
    by (simp add: demoFeedback_def demo_getCandidate) (simp add: demoCandidate_def)
qed

text \<open>
  C9.  A feedback submission whose \<^verbatim>\<open>candidateId\<close> is not the key of a stored candidate
  is answered with 201 and the new feedback record, the record is stored, and the store
  is otherwise the one before: no candidate changes.
\<close>

theorem C9_feedback_for_unknown_candidate:
  assumes "getCandidate (if_candidateId fb) s = None"
  shows "postFeedback (Some fb) s = (Json 201 (fst (createFeedback fb s)), snd (createFeedback fb s)) \<and>
         statusCode (fst (postFeedback (Some fb) s)) = 201 \<and>
         getFeedback (f_id (fst (createFeedback fb s))) (snd (postFeedback (Some fb) s)) =
           Some (fst (createFeedback fb s)) \<and>
         candidates (snd (postFeedback (Some fb) s)) = candidates s"
proof -
  have "getCandidate (if_candidateId fb) (snd (createFeedback fb s)) = None"
    using assms by (simp add: getCandidate_def createFeedback_candidates)
  then have p: "postFeedback (Some fb) s =
      (Json 201 (fst (createFeedback fb s)), snd (createFeedback fb s))"
    by (simp add: postFeedback_def split_def Let_def)
  have "getFeedback (f_id (fst (createFeedback fb s))) (snd (createFeedback fb s)) =
      Some (fst (createFeedback fb s))"
    by (simp add: getFeedback_def createFeedback_def Let_def AList.update_conv')
  with p show ?thesis by (simp add: createFeedback_candidates)
qed

theorem C9_feedback_for_unknown_candidate_witness:
  "getCandidate 7 demoStore = None \<and>
   statusCode (fst (postFeedback (Some (demoFeedback 7 ''next'' (Some ''screening''))) demoStore)) = 201 \<and>
   map_option f_candidateId
     (getFeedback 1 (snd (postFeedback (Some (demoFeedback 7 ''next'' (Some ''screening''))) demoStore))) =
     Some 7 \<and>
   candidates (snd (postFeedback (Some (demoFeedback 7 ''next'' (Some ''screening''))) demoStore)) =
     [(1, demoCandidate)]"
proof -
  let ?fb = "demoFeedback 7 ''next'' (Some ''screening'')"
  let ?s' = "snd (postFeedback (Some ?fb) demoStore)"
  have h: "if_candidateId ?fb = 7"
    by (simp add: demoFeedback_def)
  have n: "getCandidate 7 demoStore = None"
    by (simp add: getCandidate_def demo_candidates)
  then have g: "getCandidate (if_candidateId ?fb) demoStore = None"
    by (simp only: h)
  have f: "f_id (fst (createFeedback ?fb demoStore)) = 1"
    "f_candidateId (fst (createFeedback ?fb demoStore)) = 7"
    by (simp_all add: createFeedback_def Let_def demo_others start_counters demoFeedback_def)
  note t = C9_feedback_for_unknown_candidate [OF g]
  from t have a: "statusCode (fst (postFeedback (Some ?fb) demoStore)) = 201"
    by blast
  from t have "getFeedback (f_id (fst (createFeedback ?fb demoStore))) ?s' =
      Some (fst (createFeedback ?fb demoStore))"
    by blast
  then have b: "map_option f_candidateId (getFeedback 1 ?s') = Some 7"
    by (simp add: f)
  from t have "candidates ?s' = candidates demoStore"
    by blast
  then have c: "candidates ?s' = [(1, demoCandidate)]"
    by (simp add: demo_candidates)
  from n a b c show ?thesis by blast
qed

section \<open>User payloads\<close>

lemma hasField_omit: "\<not> hasField k (omit k obj)"
  by (auto simp add: hasField_def omit_def)

lemma safeUser_no_password: "\<not> hasField ''password'' (omit ''password'' (userObject u))"
  by (rule hasField_omit)

lemma login_no_password:
  "obj \<in> set (objects (payload (fst (login username password s)))) \<Longrightarrow> \<not> hasField ''password'' obj"
  by (auto simp add: login_def hasField_def split: option.splits if_splits)

lemma listUsers_no_password:
  "obj \<in> set (objects (payload (fst (listUsers s)))) \<Longrightarrow> \<not> hasField ''password'' obj"
  by (auto simp add: listUsers_def hasField_omit)

lemma getUserRoute_no_password:
  "obj \<in> set (objects (payload (fst (getUserRoute i s)))) \<Longrightarrow> \<not> hasField ''password'' obj"
  by (auto simp add: getUserRoute_def hasField_omit split: option.splits) (simp add: hasField_def)

lemma postUser_no_password:
  "obj \<in> set (objects (payload (fst (postUser now parsed s)))) \<Longrightarrow> \<not> hasField ''password'' obj"
  by (auto simp add: postUser_def hasField_omit split_def Let_def split: option.splits)
     (simp add: hasField_def)

lemma patchUser_no_password:
  "obj \<in> set (objects (payload (fst (patchUser i upd s)))) \<Longrightarrow> \<not> hasField ''password'' obj"
  by (auto simp add: patchUser_def hasField_omit split: option.splits prod.splits)
     (simp add: hasField_def)

lemma createUser_stores_password:
  "map_option u_password (getUser (u_id (fst (createUser now ins s))) (snd (createUser now ins s))) =
     Some (iu_password ins)"
  by (simp add: createUser_def Let_def getUser_def AList.update_conv')

text \<open>
  C10.  Whatever the login, list-users, get-user, create-user and update-user routes
  answer, no object of the payload has a field \<^verbatim>\<open>password\<close>; the stored user objects
  do have one, and create-user stores the submitted password as it is.
\<close>

theorem C10_no_password_in_payload:
  "(\<forall>obj \<in> set (objects (payload (fst (userApi now req s)))). \<not> hasField ''password'' obj) \<and>
   hasField ''password'' (userObject u) \<and>
   map_option u_password (getUser (u_id (fst (createUser now ins s))) (snd (createUser now ins s))) =
     Some (iu_password ins)"
proof -
  have "\<not> hasField ''password'' obj"
    if "obj \<in> set (objects (payload (fst (userApi now req s))))" for obj
    using that
    by (cases req)
       (simp_all add: login_no_password listUsers_no_password getUserRoute_no_password
          postUser_no_password patchUser_no_password)
  moreover have "hasField ''password'' (userObject u)"
    by (simp add: hasField_def userObject_def)
  ultimately show ?thesis
    using createUser_stores_password by blast
qed

theorem C10_no_password_in_payload_witness:
  "fst (userApi 7000 (Login (Some ''admin'') (Some ''admin123'')) demoStore) =
     Json 200 (Obj [(''id'', JNum 1), (''username'', JStr ''admin''), (''name'', JStr ''Admin User''),
                    (''email'', JStr ''admin@example.com''), (''role'', JStr ''admin'')]) \<and>
   [(''id'', JNum 1), (''username'', JStr ''admin''), (''name'', JStr ''Admin User''),
    (''email'', JStr ''admin@example.com''), (''role'', JStr ''admin'')]
     \<in> set (objects (payload (fst (userApi 7000 (Login (Some ''admin'') (Some ''admin123'')) demoStore)))) \<and>
   \<not> hasField ''password''
     [(''id'', JNum 1), (''username'', JStr ''admin''), (''name'', JStr ''Admin User''),
      (''email'', JStr ''admin@example.com''), (''role'', JStr ''admin'')]"
proof -
  let ?obj = "[(''id'', JNum 1), (''username'', JStr ''admin''), (''name'', JStr ''Admin User''),
     (''email'', JStr ''admin@example.com''), (''role'', JStr ''admin'')]"
  have l: "fst (userApi 7000 (Login (Some ''admin'') (Some ''admin123'')) demoStore) =
      Json 200 (Obj ?obj)"
    by (simp add: login_def truthy_def getUserByUsername_def demo_others start_users)
  then have m: "?obj \<in> set (objects (payload (fst (userApi 7000
      (Login (Some ''admin'') (Some ''admin123'')) demoStore))))"
    by simp
  from C10_no_password_in_payload [of 7000 "Login (Some ''admin'') (Some ''admin123'')" demoStore] m
  have "\<not> hasField ''password'' ?obj"
    by blast
  with l m show ?thesis by blast
qed

section \<open>Serial numbers\<close>

lemma digitValue_digitChar: "d < 10 \<Longrightarrow> digitValue (digitChar d) = d"
proof -
  assume "d < 10"
  then have "d = 0 \<or> d = 1 \<or> d = 2 \<or> d = 3 \<or> d = 4 \<or> d = 5 \<or> d = 6 \<or> d = 7 \<or> d = 8 \<or> d = 9"
    by arith
  then show ?thesis
    by (elim disjE) (simp_all add: digitValue_def digitChar_def)
qed

lemma decimalValue_snoc: "decimalValue (str @ [c]) = 10 * decimalValue str + digitValue c"
  by (simp add: decimalValue_def)

lemma decimalValue_toString: "decimalValue (toString n) = n"
proof (induction n rule: toString.induct)
  case (1 n)
  show ?case
  proof (cases "n < 10")
    case True
    then have "toString n = [digitChar n]" by (subst toString.simps) simp
    with True show ?thesis by (simp add: decimalValue_def digitValue_digitChar)
  next
    case False
    then have "toString n = toString (n div 10) @ [digitChar (n mod 10)]"
      by (subst toString.simps) simp
    with 1 False show ?thesis
      by (simp add: decimalValue_snoc digitValue_digitChar)
  qed
qed

lemma decimalValue_zeros: "decimalValue (replicate k (CHR ''0'') @ str) = decimalValue str"
proof -
  have "foldl (\<lambda>a c. 10 * a + digitValue c) 0 (replicate k (CHR ''0'')) = 0"
    by (induction k) (simp_all add: digitValue_def)
  then show ?thesis by (simp add: decimalValue_def)
qed

lemma decimalValue_padStart: "decimalValue (padStart m (CHR ''0'') (toString n)) = n"
  by (simp add: padStart_def decimalValue_zeros decimalValue_toString)

lemma length_padStart: "m \<le> length (padStart m c str)"
  by (simp add: padStart_def)

lemma serialNoFor_value: "decimalValue (drop 3 (serialNoFor cands)) = length cands + 1"
  by (simp add: serialNoFor_def decimalValue_padStart)

lemma serialNoFor_length: "3 \<le> length (drop 3 (serialNoFor cands))"
  by (simp add: serialNoFor_def length_padStart)

lemma register_created:
  assumes "fst (register r s) = Json code c"
  shows "code = 201 \<and> c_serialNo c = serialNoFor (getCandidates s) \<and>
         c_qrCodeUrl c = Some (qrCodeUrlFor (c_serialNo c)) \<and>
         c_status c = ''registered'' \<and> c_currentRound c = ''gd''"
  using assms
  by (cases r)
     (auto simp add: googleSheetsWebhook_def manualCandidate_def createCandidate_def Let_def
        orElse_def split: if_splits)

text \<open>The candidate of the answer is the candidate in the store, under the counter's value.\<close>

lemma register_stored:
  assumes "fst (register r s) = Json code c"
  shows "c_id c = candidateCurrentId s \<and> getCandidate (c_id c) (snd (register r s)) = Some c"
  using assms
  by (cases r)
     (auto simp add: googleSheetsWebhook_def manualCandidate_def createCandidate_def Let_def
        getCandidate_def AList.update_conv' split: if_splits)

lemma register_failure: "fst (register r s) = Failure code msg \<Longrightarrow> snd (register r s) = s"
  by (cases r)
     (auto simp add: googleSheetsWebhook_def manualCandidate_def createCandidate_def Let_def
        split: if_splits)

lemma register_not_invalid: "fst (register r s) \<noteq> Invalid code msg"
  by (cases r)
     (auto simp add: googleSheetsWebhook_def manualCandidate_def createCandidate_def Let_def
        split: if_splits)

lemma update_fresh_key: "k \<notin> set (map fst al) \<Longrightarrow> AList.update k v al = al @ [(k, v)]"
  by (induction al) auto

lemma createCandidate_grows:
  assumes "candidateKeysBelowCounter s"
  shows "candidates (snd (createCandidate ins s)) = candidates s @ [(candidateCurrentId s, fst (createCandidate ins s))]"
    and "candidateKeysBelowCounter (snd (createCandidate ins s))"
proof -
  from assms have fresh: "candidateCurrentId s \<notin> set (map fst (candidates s))"
    by (auto simp add: candidateKeysBelowCounter_def list_all_iff)
  then show "candidates (snd (createCandidate ins s)) =
      candidates s @ [(candidateCurrentId s, fst (createCandidate ins s))]"
    by (simp add: createCandidate_def Let_def update_fresh_key)
  with assms show "candidateKeysBelowCounter (snd (createCandidate ins s))"
    by (auto simp add: candidateKeysBelowCounter_def list_all_iff createCandidate_def Let_def)
qed

lemma register_appends:
  assumes "candidateKeysBelowCounter s" and "fst (register r s) = Json code c"
  shows "candidates (snd (register r s)) = candidates s @ [(candidateCurrentId s, c)]"
    and "candidateKeysBelowCounter (snd (register r s))"
  using assms createCandidate_grows [OF assms(1)]
  by (cases r; simp add: googleSheetsWebhook_def manualCandidate_def Let_def split_def
        split: if_splits)+

lemma register_grows:
  assumes "candidateKeysBelowCounter s" and "fst (register r s) = Json code c"
  shows "length (candidates (snd (register r s))) = length (candidates s) + 1"
    and "candidateKeysBelowCounter (snd (register r s))"
  using register_appends [OF assms] by simp_all

lemma registered_serials:
  assumes "candidateKeysBelowCounter s" and "c \<in> set (registered rs s)"
  shows "length (candidates s) < decimalValue (drop 3 (c_serialNo c))"
  using assms
proof (induction rs arbitrary: s)
  case Nil
  then show ?case by simp
next
  case (Cons r rs)
  obtain resp s' where e: "register r s = (resp, s')" by (cases "register r s")
  show ?case
  proof (cases resp)
    case (Json code c0)
    with e have f: "fst (register r s) = Json code c0" by simp
    from register_grows [OF Cons.prems(1) f] e
    have g: "length (candidates s') = length (candidates s) + 1" "candidateKeysBelowCounter s'"
      by simp_all
    from Cons.prems(2) e Json have "c = c0 \<or> c \<in> set (registered rs s')" by auto
    then show ?thesis
    proof
      assume "c = c0"
      with register_created [OF f] show ?thesis
        by (simp add: serialNoFor_value getCandidates_def)
    next
      assume "c \<in> set (registered rs s')"
      from Cons.IH [OF g(2) this] g(1) show ?thesis by simp
    qed
  next
    case (Failure code msg)
    with e have "fst (register r s) = Failure code msg" by simp
    from register_failure [OF this] e have "s' = s" by simp
    with Cons e Failure show ?thesis by simp
  next
    case (Invalid code msg)
    with e register_not_invalid [of r s code msg] show ?thesis by simp
  qed
qed

lemma registered_distinct:
  assumes "candidateKeysBelowCounter s"
  shows "distinct (map c_serialNo (registered rs s))"
  using assms
proof (induction rs arbitrary: s)
  case Nil
  then show ?case by simp
next
  case (Cons r rs)
  obtain resp s' where e: "register r s = (resp, s')" by (cases "register r s")
  show ?case
  proof (cases resp)
    case (Json code c0)
    with e have f: "fst (register r s) = Json code c0" by simp
    from register_grows [OF Cons.prems f] e
    have g: "length (candidates s') = length (candidates s) + 1" "candidateKeysBelowCounter s'"
      by simp_all
    have v: "decimalValue (drop 3 (c_serialNo c0)) = length (candidates s) + 1"
      using register_created [OF f] by (simp add: serialNoFor_value getCandidates_def)
    have "c_serialNo c0 \<noteq> c_serialNo c" if "c \<in> set (registered rs s')" for c
      using registered_serials [OF g(2) that] g(1) v by auto
    with Cons.IH [OF g(2)] e Json show ?thesis by auto
  next
    case (Failure code msg)
    with e have "fst (register r s) = Failure code msg" by simp
    from register_failure [OF this] e have "s' = s" by simp
    with Cons e Failure show ?thesis by simp
  next
    case (Invalid code msg)
    with e register_not_invalid [of r s code msg] show ?thesis by simp
  qed
qed

text \<open>
  The store after a list of registrations holds the candidates of the answers, in order,
  behind the candidates it held before.
\<close>

lemma registerAll_candidates:
  assumes "candidateKeysBelowCounter s"
  shows "getCandidates (registerAll rs s) = getCandidates s @ registered rs s"
  using assms
proof (induction rs arbitrary: s)
  case Nil
  then show ?case by simp
next
  case (Cons r rs)
  obtain resp s' where e: "register r s = (resp, s')" by (cases "register r s")
  show ?case
  proof (cases resp)
    case (Json code c0)
    with e have f: "fst (register r s) = Json code c0" by simp
    from register_appends [OF Cons.prems f] e
    have g: "candidates s' = candidates s @ [(candidateCurrentId s, c0)]"
      "candidateKeysBelowCounter s'"
      by simp_all
    from Cons.IH [OF g(2)] g(1) e Json show ?thesis
      by (simp add: getCandidates_def)
  next
    case (Failure code msg)
    with e have "fst (register r s) = Failure code msg" by simp
    from register_failure [OF this] e have "s' = s" by simp
    with Cons e Failure show ?thesis by simp
  next
    case (Invalid code msg)
    with e register_not_invalid [of r s code msg] show ?thesis by simp
  qed
qed

lemma demo_candidate_counter: "candidateCurrentId demoStore = 2"
  by (simp add: demoStore_def manualCandidate_def createCandidate_def updateCandidate_def
      Let_def split_def start_counters split: option.splits)

lemma demo_keys: "candidateKeysBelowCounter demoStore"
  by (simp add: candidateKeysBelowCounter_def demo_candidates demo_candidate_counter)

lemma demo_registered:
  "map c_serialNo (registered demoRegistrations demoStore) = [''WD-002'', ''WD-003'']"
  by (simp add: demoRegistrations_def manualCandidate_def googleSheetsWebhook_def
      createCandidate_def Let_def getCandidates_def demo_candidates demo_candidate_counter
      serialNoFor_def padStart_def toString_digit digitChar_def numeral_2_eq_2)

text \<open>
  Every store that the constructor and the storage methods build has its candidate keys
  below the counter.
\<close>

lemma updateCandidate_keeps_keys:
  assumes "candidateKeysBelowCounter s"
  shows "candidateKeysBelowCounter (snd (updateCandidate i upd s))"
proof (cases "map_of (candidates s) i")
  case None
  with assms show ?thesis by (simp add: updateCandidate_def)
next
  case (Some e)
  then have "i \<in> set (map fst (candidates s))"
    by (auto dest: map_of_SomeD intro: rev_image_eqI)
  then have "map fst (AList.update i (spreadCandidate e upd) (candidates s)) = map fst (candidates s)"
    by (simp add: AList.update_keys)
  with assms Some show ?thesis
    by (simp add: updateCandidate_def Let_def candidateKeysBelowCounter_def)
qed

lemma candidate_frame:
  "candidates (snd (updateUser i uu s)) = candidates s \<and>
   candidateCurrentId (snd (updateUser i uu s)) = candidateCurrentId s"
  "candidates (snd (updatePanel i pu s)) = candidates s \<and>
   candidateCurrentId (snd (updatePanel i pu s)) = candidateCurrentId s"
  "candidates (snd (updateRoom i ru s)) = candidates s \<and>
   candidateCurrentId (snd (updateRoom i ru s)) = candidateCurrentId s"
  "candidates (snd (updateRolePermission now i rpu s)) = candidates s \<and>
   candidateCurrentId (snd (updateRolePermission now i rpu s)) = candidateCurrentId s"
  by (simp_all add: updateUser_def updatePanel_def updateRoom_def updateRolePermission_def Let_def
      split: option.splits)

lemma candidate_frame_rooms:
  "candidates (snd (assignPanelToRoom a p s)) = candidates s \<and>
   candidateCurrentId (snd (assignPanelToRoom a p s)) = candidateCurrentId s"
  "candidates (snd (removePanelFromRoom a p s)) = candidates s \<and>
   candidateCurrentId (snd (removePanelFromRoom a p s)) = candidateCurrentId s"
  by (simp_all add: assignPanelToRoom_def removePanelFromRoom_def Let_def candidate_frame
      split: option.splits)

lemma exec_keeps_candidate_keys:
  assumes "candidateKeysBelowCounter s"
  shows "candidateKeysBelowCounter (snd (exec x s))"
proof (cases x)
  case (CreateCandidate ins)
  with createCandidate_grows(2) [OF assms, of ins] show ?thesis by (simp add: split_def Let_def)
next
  case (UpdateCandidate i upd)
  with updateCandidate_keeps_keys [OF assms, of i upd] show ?thesis by simp
qed (use assms in \<open>simp_all add: candidateKeysBelowCounter_def split_def candidate_frame
  candidate_frame_rooms createUser_def createPanel_def createFeedback_def createRoom_def
  createCandidateFeedback_def createRolePermission_def deleteUser_def deleteRolePermission_def
  Let_def\<close>)

lemma run_keeps_candidate_keys:
  "candidateKeysBelowCounter s \<Longrightarrow> candidateKeysBelowCounter (run xs s)"
  by (induction xs arbitrary: s) (simp_all add: exec_keeps_candidate_keys)

lemma reachable_candidate_keys: "candidateKeysBelowCounter (run xs emptyStore)"
  by (rule run_keeps_candidate_keys) (simp add: candidateKeysBelowCounter_def emptyStore_def)

lemma start_candidate_keys: "candidateKeysBelowCounter (newMemStorage clock)"
  unfolding newMemStorage_def by (rule reachable_candidate_keys)

text \<open>
  C8.  A candidate that the Google Sheets webhook or the manual endpoint creates has the
  serial number \<open>WD-\<close> followed by the number of candidates in the store plus one, in
  decimal and padded with zeros to three digits at least; its QR-code URL is the template
  around that serial number, its status is \<open>registered\<close> and its round \<open>gd\<close>.  The
  candidate of the answer is the candidate in the store, under the next identifier.  From
  a store whose candidate keys lie below the counter, a request adds the candidate of its
  answer to the store's candidates and nothing else, the store after a list of requests
  holds the candidates of the answers behind those it held before, and the serial numbers
  that the list assigns are pairwise different.
\<close>

theorem C8_serial_numbers:
  "(fst (register r s) = Json code c \<longrightarrow>
      code = 201 \<and>
      c_serialNo c = ''WD-'' @ padStart 3 (CHR ''0'') (toString (length (getCandidates s) + 1)) \<and>
      3 \<le> length (drop 3 (c_serialNo c)) \<and>
      decimalValue (drop 3 (c_serialNo c)) = length (getCandidates s) + 1 \<and>
      c_qrCodeUrl c =
        Some (''https://api.qrserver.com/v1/create-qr-code/?data='' @ c_serialNo c @ ''&size=150x150'') \<and>
      c_status c = ''registered'' \<and> c_currentRound c = ''gd'' \<and>
      c_id c = candidateCurrentId s \<and>
      getCandidate (c_id c) (snd (register r s)) = Some c) \<and>
   (candidateKeysBelowCounter s \<longrightarrow>
      getCandidates (snd (register r s)) =
        getCandidates s @ (case fst (register r s) of Json code' c' \<Rightarrow> [c'] | _ \<Rightarrow> []) \<and>
      getCandidates (registerAll rs s) = getCandidates s @ registered rs s \<and>
      distinct (map c_serialNo (registered rs s)))"
proof (intro conjI impI)
  assume a: "fst (register r s) = Json code c"
  note t = register_created [OF a]
  from t show "code = 201" "c_status c = ''registered''" "c_currentRound c = ''gd''"
    by simp_all
  from t show "c_serialNo c = ''WD-'' @ padStart 3 (CHR ''0'') (toString (length (getCandidates s) + 1))"
    by (simp add: serialNoFor_def)
  from t show "3 \<le> length (drop 3 (c_serialNo c))"
    by (simp only: serialNoFor_length)
  from t show "decimalValue (drop 3 (c_serialNo c)) = length (getCandidates s) + 1"
    by (simp only: serialNoFor_value)
  from t show "c_qrCodeUrl c =
      Some (''https://api.qrserver.com/v1/create-qr-code/?data='' @ c_serialNo c @ ''&size=150x150'')"
    by (simp add: qrCodeUrlFor_def)
  from register_stored [OF a] show "c_id c = candidateCurrentId s"
    "getCandidate (c_id c) (snd (register r s)) = Some c"
    by blast+
next
  assume k: "candidateKeysBelowCounter s"
  then show "distinct (map c_serialNo (registered rs s))"
    by (rule registered_distinct)
  from k show "getCandidates (registerAll rs s) = getCandidates s @ registered rs s"
    by (rule registerAll_candidates)
  from registerAll_candidates [OF k, of "[r]"]
  show "getCandidates (snd (register r s)) =
      getCandidates s @ (case fst (register r s) of Json code' c' \<Rightarrow> [c'] | _ \<Rightarrow> [])"
    by (simp add: split_def split: response.splits)
qed

theorem C8_serial_numbers_witness:
  "candidateKeysBelowCounter demoStore \<and>
   (\<exists>c. fst (register (Manual 7000 ''Ben'' ''ben@example.com'' ''Analyst'') demoStore) = Json 201 c \<and>
        c_serialNo c = ''WD-002'' \<and> c_status c = ''registered'' \<and> c_currentRound c = ''gd'' \<and>
        c_qrCodeUrl c =
          Some ''https://api.qrserver.com/v1/create-qr-code/?data=WD-002&size=150x150'' \<and>
        getCandidate 2
          (snd (register (Manual 7000 ''Ben'' ''ben@example.com'' ''Analyst'') demoStore)) = Some c) \<and>
   map c_serialNo (registered demoRegistrations demoStore) = [''WD-002'', ''WD-003''] \<and>
   map c_serialNo (getCandidates (registerAll demoRegistrations demoStore)) =
     [''WD-001'', ''WD-002'', ''WD-003''] \<and>
   distinct (map c_serialNo (registered demoRegistrations demoStore))"
proof -
  let ?r = "Manual 7000 ''Ben'' ''ben@example.com'' ''Analyst''"
  obtain c where c: "fst (register ?r demoStore) = Json 201 c"
    by (simp add: manualCandidate_def createCandidate_def Let_def split_def)
  note t = C8_serial_numbers [of ?r demoStore 201 c demoRegistrations]
  from t c have "c_serialNo c =
      ''WD-'' @ padStart 3 (CHR ''0'') (toString (length (getCandidates demoStore) + 1))"
    by blast
  then have "c_serialNo c = ''WD-002''"
    by (simp add: getCandidates_def demo_candidates padStart_def toString_digit digitChar_def
        numeral_2_eq_2)
  moreover from t c have "c_status c = ''registered''" "c_currentRound c = ''gd''"
    "c_qrCodeUrl c =
      Some (''https://api.qrserver.com/v1/create-qr-code/?data='' @ c_serialNo c @ ''&size=150x150'')"
    by blast+
  moreover from t c have "c_id c = candidateCurrentId demoStore"
    "getCandidate (c_id c) (snd (register ?r demoStore)) = Some c"
    by blast+
  then have "getCandidate 2 (snd (register ?r demoStore)) = Some c"
    by (simp add: demo_candidate_counter)
  moreover from t demo_keys have "distinct (map c_serialNo (registered demoRegistrations demoStore))"
    by blast
  moreover from t demo_keys have "getCandidates (registerAll demoRegistrations demoStore) =
      getCandidates demoStore @ registered demoRegistrations demoStore"
    by blast
  then have "map c_serialNo (getCandidates (registerAll demoRegistrations demoStore)) =
      [''WD-001'', ''WD-002'', ''WD-003'']"
    by (simp add: demo_registered getCandidates_def demo_candidates demoCandidate_def)
  ultimately show ?thesis
    using c demo_keys demo_registered by simp
qed

section \<open>Assigning a panel to a room\<close>

text \<open>
  The storage method looks both identifiers up before it writes: with either missing it
  answers \<^verbatim>\<open>undefined\<close> and leaves the store as it is.
\<close>

lemma assignPanelToRoom_not_found:
  "getRoom roomId s = None \<or> getPanel panelId s = None \<Longrightarrow>
   assignPanelToRoom roomId panelId s = (None, s)"
  by (auto simp add: assignPanelToRoom_def getRoom_def getPanel_def split: option.splits)

text \<open>
  C3.  The route does not: it detaches the panel from the other rooms first.  On the
  start-up store there is no room 999, and assigning panel 1 to it is answered with 404;
  yet afterwards room 1 has lost panel 1 and is no longer occupied, and the panel's
  \<^verbatim>\<open>roomNo\<close> is empty.
\<close>

theorem C3_route_mutates_before_not_found:
  "getRoom 999 (newMemStorage startClock) = None \<and>
   fst (assignPanelRoute 999 1 (newMemStorage startClock)) = Failure 404 ''Room or panel not found'' \<and>
   map_option r_assignedPanels (getRoom 1 (newMemStorage startClock)) = Some (Some [1]) \<and>
   map_option r_isOccupied (getRoom 1 (newMemStorage startClock)) = Some True \<and>
   map_option p_roomNo (getPanel 1 (newMemStorage startClock)) = Some ''101'' \<and>
   map_option r_assignedPanels (getRoom 1 (snd (assignPanelRoute 999 1 (newMemStorage startClock)))) =
     Some (Some []) \<and>
   map_option r_isOccupied (getRoom 1 (snd (assignPanelRoute 999 1 (newMemStorage startClock)))) =
     Some False \<and>
   map_option p_roomNo (getPanel 1 (snd (assignPanelRoute 999 1 (newMemStorage startClock)))) =
     Some []"
  by (simp add: assignPanelRoute_def getRooms_def getRoom_def getPanel_def start_rooms start_panels
      includesPanel_def removePanelFromRoom_def nullish_def Let_def updatePanel_def
      assignPanelToRoom_def spreadPanel_def noPanelUpdates_def over_def)

section \<open>The rooms after the routes\<close>

lemma includesPanel_iff: "includesPanel r p \<longleftrightarrow> p \<in> set (roomPanels r)"
  by (simp add: includesPanel_def roomPanels_def nullish_def split: option.splits)

lemma roomPanels_detach: "roomPanels (detach p r) = filter (\<lambda>i. i \<noteq> p) (roomPanels r)"
proof (cases "includesPanel r p")
  case True
  then show ?thesis by (simp add: detach_def roomPanels_def nullish_def)
next
  case False
  then have "p \<notin> set (roomPanels r)" by (simp add: includesPanel_iff)
  then have "filter (\<lambda>i. i \<noteq> p) (roomPanels r) = roomPanels r"
    by (induction "roomPanels r") (auto simp add: filter_id_conv)
  with False show ?thesis by (simp add: detach_def)
qed

lemma roomPanels_attach: "roomPanels (attach p r) = roomPanels r @ [p]"
  by (simp add: attach_def roomPanels_def nullish_def)

lemma r_id_detach [simp]: "r_id (detach p r) = r_id r"
  by (simp add: detach_def)

lemma r_id_attach [simp]: "r_id (attach p r) = r_id r"
  by (simp add: attach_def)

lemma detach_detach [simp]: "detach p (detach p r) = detach p r"
proof -
  have "\<not> includesPanel (detach p r) p"
    by (simp add: includesPanel_iff roomPanels_detach)
  then show ?thesis by (simp add: detach_def [of p "detach p r"])
qed

lemma occupiedOk_detach: "occupiedOk r \<Longrightarrow> occupiedOk (detach p r)"
  by (auto simp add: detach_def occupiedOk_def roomPanels_def nullish_def)

lemma occupiedOk_attach: "occupiedOk (attach p r)"
  by (simp add: attach_def occupiedOk_def roomPanels_def nullish_def)

lemma includesPanel_detach:
  "includesPanel (detach p r) q \<longleftrightarrow> includesPanel r q \<and> q \<noteq> p"
  by (auto simp add: includesPanel_iff roomPanels_detach)

lemma includesPanel_attach:
  "includesPanel (attach p r) q \<longleftrightarrow> includesPanel r q \<or> q = p"
  by (auto simp add: includesPanel_iff roomPanels_attach)

text \<open>What the storage methods do to the rooms and to the panels' keys.\<close>

lemma updatePanel_rooms [simp]: "rooms (snd (updatePanel i u s)) = rooms s"
  by (simp add: updatePanel_def Let_def split: option.splits)

lemma updatePanel_has: "has (panels (snd (updatePanel i u s))) k = has (panels s) k"
  by (simp add: updatePanel_def Let_def has_def AList.update_conv' split: option.splits)

lemma removePanelFromRoom_rooms:
  "rooms (snd (removePanelFromRoom a p s)) =
     (case map_of (rooms s) a of None \<Rightarrow> rooms s | Some r \<Rightarrow> AList.update a (detach p r) (rooms s))"
proof (cases "map_of (rooms s) a")
  case None
  then show ?thesis by (simp add: removePanelFromRoom_def)
next
  case (Some r)
  show ?thesis
  proof (cases "includesPanel r p")
    case True
    with Some show ?thesis
      by (simp add: removePanelFromRoom_def Let_def detach_def includesPanel_iff roomPanels_def
          split: option.splits)
  next
    case False
    with Some have "AList.update a (detach p r) (rooms s) = rooms s"
      by (simp add: detach_def AList.update_triv)
    with Some False show ?thesis
      by (simp add: removePanelFromRoom_def Let_def includesPanel_iff roomPanels_def)
  qed
qed

lemma removePanelFromRoom_has:
  "has (panels (snd (removePanelFromRoom a p s))) k = has (panels s) k"
  by (simp add: removePanelFromRoom_def Let_def updatePanel_has split: option.splits)

lemma assignPanelToRoom_rooms:
  "rooms (snd (assignPanelToRoom b p s)) =
     (case map_of (rooms s) b of
        None \<Rightarrow> rooms s
      | Some r \<Rightarrow> if has (panels s) p \<and> \<not> includesPanel r p
                  then AList.update b (attach p r) (rooms s) else rooms s)"
  by (simp add: assignPanelToRoom_def Let_def has_def attach_def includesPanel_iff roomPanels_def
      split: option.splits)

lemma map_fst_mapRooms [simp]: "map fst (mapRooms g al) = map fst al"
  by (simp add: mapRooms_def comp_def)

lemma map_of_mapRooms: "map_of (mapRooms g al) k = map_option (g k) (map_of al k)"
  by (induction al) (auto simp add: mapRooms_def)

lemma mapRooms_mapRooms: "mapRooms g (mapRooms h al) = mapRooms (\<lambda>k r. g k (h k r)) al"
  by (simp add: mapRooms_def comp_def)

lemma mapRooms_cong: "(\<And>k r. (k, r) \<in> set al \<Longrightarrow> g k r = h k r) \<Longrightarrow> mapRooms g al = mapRooms h al"
  by (auto simp add: mapRooms_def)

lemma mapRooms_id: "(\<And>k r. (k, r) \<in> set al \<Longrightarrow> g k r = r) \<Longrightarrow> mapRooms g al = al"
  by (induction al) (auto simp add: mapRooms_def)

lemma update_as_mapRooms:
  assumes "distinct (map fst al)"
  shows "(case map_of al a of None \<Rightarrow> al | Some r \<Rightarrow> AList.update a (f r) al) =
           mapRooms (\<lambda>k r. if k = a then f r else r) al"
  using assms
proof (induction al)
  case Nil
  then show ?case by (simp add: mapRooms_def)
next
  case (Cons kr al)
  obtain k r where kr: "kr = (k, r)" by (cases kr)
  show ?case
  proof (cases "k = a")
    case True
    with Cons.prems kr have "a \<notin> fst ` set al" by auto
    then have "mapRooms (\<lambda>k r. if k = a then f r else r) al = al"
      by (intro mapRooms_id) force
    with True kr show ?thesis by (simp add: mapRooms_def)
  next
    case False
    from Cons have ih: "(case map_of al a of None \<Rightarrow> al | Some r \<Rightarrow> AList.update a (f r) al) =
        mapRooms (\<lambda>k r. if k = a then f r else r) al"
      by simp
    show ?thesis
    proof (cases "map_of al a")
      case None
      with ih False kr show ?thesis by (simp add: mapRooms_def)
    next
      case (Some r')
      with ih False kr show ?thesis by (simp add: mapRooms_def)
    qed
  qed
qed

lemma removePanelFromRoom_mapRooms:
  assumes "distinct (map fst (rooms s))"
  shows "rooms (snd (removePanelFromRoom a p s)) =
           mapRooms (\<lambda>k r. if k = a then detach p r else r) (rooms s)"
  using update_as_mapRooms [OF assms, of a "detach p"]
  by (simp add: removePanelFromRoom_rooms)

lemma fold_remove_mapRooms:
  assumes "distinct (map fst (rooms s))"
  shows "rooms (fold (\<lambda>k st. snd (removePanelFromRoom k p st)) ks s) =
           mapRooms (\<lambda>k r. if k \<in> set ks then detach p r else r) (rooms s)"
  using assms
proof (induction ks arbitrary: s)
  case Nil
  then show ?case by (simp add: mapRooms_id)
next
  case (Cons a ks)
  let ?s1 = "snd (removePanelFromRoom a p s)"
  have r1: "rooms ?s1 = mapRooms (\<lambda>k r. if k = a then detach p r else r) (rooms s)"
    by (rule removePanelFromRoom_mapRooms [OF Cons.prems])
  with Cons.prems have "distinct (map fst (rooms ?s1))" by simp
  from Cons.IH [OF this] r1 show ?case
    by (auto simp add: mapRooms_mapRooms intro!: mapRooms_cong)
qed

lemma fold_remove_has:
  "has (panels (fold (\<lambda>k st. snd (removePanelFromRoom k p st)) ks s)) q = has (panels s) q"
  by (induction ks arbitrary: s) (simp_all add: removePanelFromRoom_has)

lemma assignPanelToRoom_mapRooms:
  assumes "distinct (map fst (rooms s))"
  shows "rooms (snd (assignPanelToRoom b p s)) =
           mapRooms (\<lambda>k r. if k = b then (if has (panels s) p \<and> \<not> includesPanel r p
                                            then attach p r else r) else r) (rooms s)"
proof -
  let ?f = "\<lambda>r. if has (panels s) p \<and> \<not> includesPanel r p then attach p r else r"
  have "rooms (snd (assignPanelToRoom b p s)) =
      (case map_of (rooms s) b of None \<Rightarrow> rooms s | Some r \<Rightarrow> AList.update b (?f r) (rooms s))"
    by (simp add: assignPanelToRoom_rooms AList.update_triv split: option.splits)
  with update_as_mapRooms [OF assms, of b ?f] show ?thesis by simp
qed

lemma keyed_entry:
  assumes "roomsKeyedById s" and "(k, r) \<in> set (rooms s)"
  shows "r_id r = k"
  using assms by (auto simp add: roomsKeyedById_def list_all_iff)

lemma keyed_unique:
  assumes "roomsKeyedById s" and "(k, r) \<in> set (rooms s)" and "(k, r') \<in> set (rooms s)"
  shows "r' = r"
  using assms by (auto simp add: roomsKeyedById_def dest: eq_key_imp_eq_value)

lemma detach_loop_rooms:
  assumes wf: "roomsKeyedById s"
  shows "rooms (fold (\<lambda>room st. snd (removePanelFromRoom (r_id room) p st))
                  (filter (\<lambda>room. includesPanel room p \<and> r_id room \<noteq> b) (getRooms s)) s) =
           mapRooms (\<lambda>k r. if k = b then r else detach p r) (rooms s)"
proof -
  let ?rs = "filter (\<lambda>room. includesPanel room p \<and> r_id room \<noteq> b) (getRooms s)"
  let ?ks = "map r_id ?rs"
  from wf have d: "distinct (map fst (rooms s))" by (simp add: roomsKeyedById_def)
  have "fold (\<lambda>room st. snd (removePanelFromRoom (r_id room) p st)) ?rs s =
      fold (\<lambda>k st. snd (removePanelFromRoom k p st)) ?ks s"
    by (simp add: fold_map comp_def)
  then have "rooms (fold (\<lambda>room st. snd (removePanelFromRoom (r_id room) p st)) ?rs s) =
      mapRooms (\<lambda>k r. if k \<in> set ?ks then detach p r else r) (rooms s)"
    by (simp only: fold_remove_mapRooms [OF d])
  also have "\<dots> = mapRooms (\<lambda>k r. if k = b then r else detach p r) (rooms s)"
  proof (rule mapRooms_cong)
    fix k r
    assume kr: "(k, r) \<in> set (rooms s)"
    show "(if k \<in> set ?ks then detach p r else r) = (if k = b then r else detach p r)"
    proof (cases "k \<in> set ?ks")
      case True
      then obtain k' r' where e: "(k', r') \<in> set (rooms s)" and i: "includesPanel r' p"
        and nb: "r_id r' \<noteq> b" and ik: "r_id r' = k"
        by (auto simp add: getRooms_def)
      from keyed_entry [OF wf e] ik have "k' = k" by simp
      with nb ik True show ?thesis by simp
    next
      case False
      with kr keyed_entry [OF wf kr] have "\<not> includesPanel r p \<or> k = b"
        by (force simp add: getRooms_def)
      with False show ?thesis by (auto simp add: detach_def)
    qed
  qed
  finally show ?thesis .
qed

lemma detach_loop_has:
  "has (panels (fold (\<lambda>room st. snd (removePanelFromRoom (r_id room) p st)) rs s)) q =
     has (panels s) q"
  by (induction rs arbitrary: s) (simp_all add: removePanelFromRoom_has)

lemma assignPanelRoute_rooms:
  assumes wf: "roomsKeyedById s"
  shows "rooms (snd (assignPanelRoute b p s)) =
           mapRooms (\<lambda>k r. if k = b then (if has (panels s) p \<and> \<not> includesPanel r p
                                            then attach p r else r)
                           else detach p r) (rooms s)"
proof -
  let ?rs = "filter (\<lambda>room. includesPanel room p \<and> r_id room \<noteq> b) (getRooms s)"
  let ?s1 = "fold (\<lambda>room st. snd (removePanelFromRoom (r_id room) p st)) ?rs s"
  let ?s2 = "case getPanel p ?s1 of
               None \<Rightarrow> ?s1
             | Some panel \<Rightarrow>
                 (case getRoom b ?s1 of
                    None \<Rightarrow> ?s1
                  | Some room \<Rightarrow>
                      snd (updatePanel p (noPanelUpdates\<lparr>pu_roomNo := Some (r_roomNumber room)\<rparr>) ?s1))"
  have s1: "(if length ?rs > 0 then ?s1 else s) = ?s1"
    by simp
  have route: "snd (assignPanelRoute b p s) = snd (assignPanelToRoom b p ?s2)"
    unfolding assignPanelRoute_def Let_def s1
    by (simp split: prod.splits option.splits)
  have r1: "rooms ?s1 = mapRooms (\<lambda>k r. if k = b then r else detach p r) (rooms s)"
    by (rule detach_loop_rooms [OF wf])
  have r2: "rooms ?s2 = rooms ?s1"
    by (simp split: option.splits)
  have h2: "has (panels ?s2) p = has (panels s) p"
    by (simp add: updatePanel_has detach_loop_has split: option.splits)
  from wf have "distinct (map fst (rooms ?s2))"
    by (simp add: r2 r1 roomsKeyedById_def)
  from assignPanelToRoom_mapRooms [OF this, of b p]
  show ?thesis
    unfolding route h2 r2 r1 mapRooms_mapRooms
    by (auto intro!: mapRooms_cong)
qed

lemma removePanelRoute_rooms:
  assumes "distinct (map fst (rooms s))"
  shows "rooms (snd (removePanelRoute a p s)) =
           mapRooms (\<lambda>k r. if k = a then detach p r else r) (rooms s)"
proof -
  let ?s1 = "case getPanel p s of
               None \<Rightarrow> s
             | Some panel \<Rightarrow> snd (updatePanel p (noPanelUpdates\<lparr>pu_roomNo := Some []\<rparr>) s)"
  have "snd (removePanelRoute a p s) = snd (removePanelFromRoom a p ?s1)"
    unfolding removePanelRoute_def Let_def by (simp split: prod.splits option.splits)
  moreover have "rooms ?s1 = rooms s"
    by (simp split: option.splits)
  ultimately show ?thesis
    using removePanelFromRoom_mapRooms [of ?s1 a p] assms by simp
qed

lemma roomsOf_empty:
  assumes "q \<notin> set (concat (map roomPanels (getRooms s)))"
  shows "roomsOf q s = []"
  using assms by (auto simp add: roomsOf_def includesPanel_iff filter_empty_conv)

lemma atMostOne_iff:
  "list_all (\<lambda>q. length (roomsOf q s) \<le> 1) (concat (map roomPanels (getRooms s))) \<longleftrightarrow>
     (\<forall>q. length (roomsOf q s) \<le> 1)"
proof
  assume a: "list_all (\<lambda>q. length (roomsOf q s) \<le> 1) (concat (map roomPanels (getRooms s)))"
  show "\<forall>q. length (roomsOf q s) \<le> 1"
  proof
    fix q
    show "length (roomsOf q s) \<le> 1"
    proof (cases "q \<in> set (concat (map roomPanels (getRooms s)))")
      case True
      with a show ?thesis unfolding list_all_iff by blast
    next
      case False
      then show ?thesis by (simp add: roomsOf_empty)
    qed
  qed
next
  assume "\<forall>q. length (roomsOf q s) \<le> 1"
  then show "list_all (\<lambda>q. length (roomsOf q s) \<le> 1) (concat (map roomPanels (getRooms s)))"
    unfolding list_all_iff by blast
qed

lemma count_mapRooms_le:
  assumes "\<And>k r. (k, r) \<in> set al \<Longrightarrow> P' (g k r) \<Longrightarrow> P r"
  shows "length (filter P' (map snd (mapRooms g al))) \<le> length (filter P (map snd al))"
  using assms
proof (induction al)
  case Nil
  then show ?case by (simp add: mapRooms_def)
next
  case (Cons kr al)
  have "length (filter P' (map snd (mapRooms g al))) \<le> length (filter P (map snd al))"
    by (rule Cons.IH) (use Cons.prems in auto)
  moreover have "P' (g (fst kr) (snd kr)) \<Longrightarrow> P (snd kr)"
    using Cons.prems [of "fst kr" "snd kr"] by simp
  ultimately show ?case
    by (auto simp add: mapRooms_def)
qed

lemma count_mapRooms_key:
  assumes "distinct (map fst al)" and "\<And>k r. (k, r) \<in> set al \<Longrightarrow> P' (g k r) \<Longrightarrow> k = b"
  shows "length (filter P' (map snd (mapRooms g al))) \<le> 1"
  using assms
proof (induction al)
  case Nil
  then show ?case by (simp add: mapRooms_def)
next
  case (Cons kr al)
  have ih: "length (filter P' (map snd (mapRooms g al))) \<le> 1"
    by (rule Cons.IH) (use Cons.prems in auto)
  show ?case
  proof (cases "P' (g (fst kr) (snd kr))")
    case True
    with Cons.prems(2) [of "fst kr" "snd kr"] have kb: "fst kr = b" by simp
    have "filter P' (map snd (mapRooms g al)) = []"
    proof -
      have "\<not> P' (g k r)" if "(k, r) \<in> set al" for k r
      proof
        assume "P' (g k r)"
        with Cons.prems(2) [of k r] that have "k = b" by simp
        moreover from that have "k \<in> fst ` set al" by force
        ultimately show False using kb Cons.prems(1) by simp
      qed
      then show ?thesis
        by (auto simp add: mapRooms_def filter_empty_conv)
    qed
    with True show ?thesis by (simp add: mapRooms_def)
  next
    case False
    with ih show ?thesis by (simp add: mapRooms_def)
  qed
qed

lemma keyed_mapRooms:
  assumes "roomsKeyedById s" and "rooms s' = mapRooms g (rooms s)"
    and "\<And>k r. r_id (g k r) = r_id r"
  shows "roomsKeyedById s'"
proof -
  have "map fst (rooms s') = map fst (rooms s)"
    by (simp add: assms(2))
  moreover have "list_all (\<lambda>kr. r_id (snd kr) = fst kr) (rooms s')"
    using assms by (auto simp add: roomsKeyedById_def list_all_iff mapRooms_def)
  ultimately show ?thesis
    using assms(1) by (simp add: roomsKeyedById_def)
qed

lemma occupied_mapRooms:
  assumes "list_all occupiedOk (getRooms s)" and "rooms s' = mapRooms g (rooms s)"
    and "\<And>k r. occupiedOk r \<Longrightarrow> occupiedOk (g k r)"
  shows "list_all occupiedOk (getRooms s')"
  using assms by (auto simp add: getRooms_def list_all_iff mapRooms_def)

lemma roomsOf_mapRooms:
  assumes "rooms s' = mapRooms g (rooms s)"
  shows "roomsOf q s' = filter (\<lambda>r. includesPanel r q) (map snd (mapRooms g (rooms s)))"
  using assms by (simp add: roomsOf_def getRooms_def)

lemma roomInvariant_assignPanelRoute:
  assumes inv: "roomInvariant s" and wf: "roomsKeyedById s"
  shows "roomInvariant (snd (assignPanelRoute b p s))"
    and "roomsKeyedById (snd (assignPanelRoute b p s))"
proof -
  let ?g = "\<lambda>k r. if k = b then (if has (panels s) p \<and> \<not> includesPanel r p then attach p r else r)
                   else detach p r"
  let ?s' = "snd (assignPanelRoute b p s)"
  have rs: "rooms ?s' = mapRooms ?g (rooms s)"
    by (rule assignPanelRoute_rooms [OF wf])
  from wf have d: "distinct (map fst (rooms s))" by (simp add: roomsKeyedById_def)
  show "roomsKeyedById ?s'"
    by (rule keyed_mapRooms [OF wf rs]) simp
  from inv have occ: "list_all occupiedOk (getRooms s)"
    by (simp add: roomInvariant_def)
  from inv have one: "length (roomsOf q s) \<le> 1" for q
    unfolding roomInvariant_def atMostOne_iff by blast
  have occ': "list_all occupiedOk (getRooms ?s')"
    by (rule occupied_mapRooms [OF occ rs]) (simp add: occupiedOk_detach occupiedOk_attach)
  have "length (roomsOf q ?s') \<le> 1" for q
  proof (cases "q = p")
    case True
    have "length (filter (\<lambda>r. includesPanel r p) (map snd (mapRooms ?g (rooms s)))) \<le> 1"
      by (rule count_mapRooms_key [OF d, where b = b])
         (auto simp add: includesPanel_detach split: if_splits)
    with True show ?thesis by (simp add: roomsOf_mapRooms [OF rs])
  next
    case False
    have "length (filter (\<lambda>r. includesPanel r q) (map snd (mapRooms ?g (rooms s)))) \<le>
        length (filter (\<lambda>r. includesPanel r q) (map snd (rooms s)))"
      by (rule count_mapRooms_le)
         (use False in \<open>auto simp add: includesPanel_detach includesPanel_attach split: if_splits\<close>)
    with one [of q] show ?thesis
      by (simp add: roomsOf_mapRooms [OF rs]) (simp add: roomsOf_def getRooms_def)
  qed
  with occ' show "roomInvariant ?s'"
    unfolding roomInvariant_def atMostOne_iff by blast
qed

lemma roomInvariant_removePanelRoute:
  assumes inv: "roomInvariant s" and wf: "roomsKeyedById s"
  shows "roomInvariant (snd (removePanelRoute a p s))"
    and "roomsKeyedById (snd (removePanelRoute a p s))"
proof -
  let ?g = "\<lambda>k r. if k = a then detach p r else r"
  let ?s' = "snd (removePanelRoute a p s)"
  from wf have d: "distinct (map fst (rooms s))" by (simp add: roomsKeyedById_def)
  have rs: "rooms ?s' = mapRooms ?g (rooms s)"
    by (rule removePanelRoute_rooms [OF d])
  show "roomsKeyedById ?s'"
    by (rule keyed_mapRooms [OF wf rs]) simp
  from inv have occ: "list_all occupiedOk (getRooms s)"
    by (simp add: roomInvariant_def)
  from inv have one: "length (roomsOf q s) \<le> 1" for q
    unfolding roomInvariant_def atMostOne_iff by blast
  have occ': "list_all occupiedOk (getRooms ?s')"
    by (rule occupied_mapRooms [OF occ rs]) (simp add: occupiedOk_detach)
  have "length (roomsOf q ?s') \<le> 1" for q
  proof -
    have "length (filter (\<lambda>r. includesPanel r q) (map snd (mapRooms ?g (rooms s)))) \<le>
        length (filter (\<lambda>r. includesPanel r q) (map snd (rooms s)))"
      by (rule count_mapRooms_le) (auto simp add: includesPanel_detach split: if_splits)
    with one [of q] show ?thesis
      by (simp add: roomsOf_mapRooms [OF rs]) (simp add: roomsOf_def getRooms_def)
  qed
  with occ' show "roomInvariant ?s'"
    unfolding roomInvariant_def atMostOne_iff by blast
qed

lemma start_roomInvariant:
  "roomInvariant (newMemStorage clock)" "roomsKeyedById (newMemStorage clock)"
  by (simp_all add: roomInvariant_def roomsKeyedById_def getRooms_def start_rooms occupiedOk_def
      roomPanels_def nullish_def roomsOf_def includesPanel_def)

lemma detach_included:
  "includesPanel r p \<Longrightarrow>
   detach p r = r\<lparr>r_assignedPanels := Some (filter (\<lambda>i. i \<noteq> p) (roomPanels r)),
                  r_isOccupied := (filter (\<lambda>i. i \<noteq> p) (roomPanels r) \<noteq> [])\<rparr>"
  by (simp add: detach_def)

lemma doubleBooked_rooms: "rooms doubleBooked =
  [(1, \<lparr>r_id = 1, r_roomNumber = ''101'', r_capacity = 5, r_floor = ''1st'', r_type = ''Technical'',
         r_isOccupied = True, r_assignedPanels = Some [1]\<rparr>),
   (2, \<lparr>r_id = 2, r_roomNumber = ''102'', r_capacity = 3, r_floor = ''1st'', r_type = ''HR'',
         r_isOccupied = False, r_assignedPanels = Some []\<rparr>),
   (3, \<lparr>r_id = 3, r_roomNumber = ''201'', r_capacity = 8, r_floor = ''2nd'', r_type = ''Manager'',
         r_isOccupied = False, r_assignedPanels = Some []\<rparr>),
   (4, \<lparr>r_id = 4, r_roomNumber = ''302'', r_capacity = 4, r_floor = ''3rd'', r_type = ''General'',
         r_isOccupied = False, r_assignedPanels = Some [1]\<rparr>)]"
  by (simp add: doubleBooked_def postRoom_def createRoom_def Let_def start_counters start_rooms
      demoRoomB_def nullish_def)

lemma doubleBooked_panels: "panels doubleBooked = panels (newMemStorage startClock)"
  by (simp add: doubleBooked_def postRoom_def createRoom_def Let_def split: option.splits)

text \<open>
  C4, as the claim states it, fails in a state in which room B lists the panel already:
  \<^verbatim>\<open>assignPanelToRoom\<close> then returns the room as it is.  In the start-up store with a
  fourth room that lists panel 1 and is not occupied, assigning panel 1 to room 4 is
  answered with 200, takes the panel from room 1, and leaves room 4 unoccupied.
\<close>

theorem C4_already_listed_counterexample:
  "map_option r_assignedPanels (getRoom 1 doubleBooked) = Some (Some [1]) \<and>
   map_option r_assignedPanels (getRoom 4 doubleBooked) = Some (Some [1]) \<and>
   has (panels doubleBooked) 1 \<and>
   statusCode (fst (assignPanelRoute 4 1 doubleBooked)) = 200 \<and>
   map_option r_assignedPanels (getRoom 1 (snd (assignPanelRoute 4 1 doubleBooked))) = Some (Some []) \<and>
   map_option r_assignedPanels (getRoom 4 (snd (assignPanelRoute 4 1 doubleBooked))) = Some (Some [1]) \<and>
   map_option r_isOccupied (getRoom 4 (snd (assignPanelRoute 4 1 doubleBooked))) = Some False"
  by (simp add: assignPanelRoute_def getRooms_def getRoom_def getPanel_def doubleBooked_rooms
      doubleBooked_panels start_panels has_def
      includesPanel_def removePanelFromRoom_def nullish_def Let_def updatePanel_def
      assignPanelToRoom_def spreadPanel_def noPanelUpdates_def over_def)

text \<open>
  C4, amended.  In a store that keeps every room under its own id, let room A list panel
  P, and let B be another room and P an existing panel.  After the route has assigned P to
  B, room A is as before but for its list, which has lost P, and its occupied flag, which
  says whether that list is non-empty.  If B did not list P, B is as before but for its
  list, which has P at its end, and its occupied flag, which is true; if B listed P
  already, B is as before.
\<close>

theorem C4_reassign_panel:
  assumes "roomsKeyedById s" and "getRoom a s = Some ra" and "includesPanel ra p" and "a \<noteq> b"
    and "getRoom b s = Some rb" and "getPanel p s = Some pn"
  shows "getRoom a (snd (assignPanelRoute b p s)) =
           Some (ra\<lparr>r_assignedPanels := Some (filter (\<lambda>i. i \<noteq> p) (roomPanels ra)),
                   r_isOccupied := (filter (\<lambda>i. i \<noteq> p) (roomPanels ra) \<noteq> [])\<rparr>) \<and>
         (\<not> includesPanel rb p \<longrightarrow>
            getRoom b (snd (assignPanelRoute b p s)) =
              Some (rb\<lparr>r_assignedPanels := Some (roomPanels rb @ [p]), r_isOccupied := True\<rparr>)) \<and>
         (includesPanel rb p \<longrightarrow> getRoom b (snd (assignPanelRoute b p s)) = Some rb)"
proof -
  from assms(6) have h: "has (panels s) p"
    by (simp add: has_def getPanel_def)
  note rs = assignPanelRoute_rooms [OF assms(1), of b p]
  from assms(2,3,4) have "getRoom a (snd (assignPanelRoute b p s)) = Some (detach p ra)"
    by (simp add: getRoom_def rs map_of_mapRooms)
  moreover from assms(5) h have "getRoom b (snd (assignPanelRoute b p s)) =
      Some (if \<not> includesPanel rb p then attach p rb else rb)"
    by (simp add: getRoom_def rs map_of_mapRooms)
  ultimately show ?thesis
    using assms(3) by (simp add: detach_included attach_def)
qed

theorem C4_reassign_panel_witness:
  "roomsKeyedById (newMemStorage startClock) \<and>
   map_option (\<lambda>r. includesPanel r 1) (getRoom 1 (newMemStorage startClock)) = Some True \<and>
   map_option (\<lambda>r. includesPanel r 1) (getRoom 2 (newMemStorage startClock)) = Some False \<and>
   has (panels (newMemStorage startClock)) 1 \<and>
   map_option (\<lambda>r. (r_isOccupied r, r_assignedPanels r))
     (getRoom 1 (snd (assignPanelRoute 2 1 (newMemStorage startClock)))) = Some (False, Some []) \<and>
   map_option (\<lambda>r. (r_isOccupied r, r_assignedPanels r))
     (getRoom 2 (snd (assignPanelRoute 2 1 (newMemStorage startClock)))) = Some (True, Some [1])"
proof -
  let ?s = "newMemStorage startClock"
  obtain ra where a: "getRoom 1 ?s = Some ra" and ia: "includesPanel ra 1"
    and pa: "roomPanels ra = [1]"
    by (simp add: getRoom_def start_rooms includesPanel_def roomPanels_def nullish_def)
  obtain rb where b: "getRoom 2 ?s = Some rb" and ib: "\<not> includesPanel rb 1"
    and pb: "roomPanels rb = []"
    by (simp add: getRoom_def start_rooms includesPanel_def roomPanels_def nullish_def)
  obtain pn where p: "getPanel 1 ?s = Some pn"
    by (simp add: getPanel_def start_panels)
  have n: "(1::int) \<noteq> 2" by simp
  note t = C4_reassign_panel [OF start_roomInvariant(2) [of startClock] a ia n b p]
  from t have "getRoom 1 (snd (assignPanelRoute 2 1 ?s)) =
      Some (ra\<lparr>r_assignedPanels := Some (filter (\<lambda>i. i \<noteq> 1) (roomPanels ra)),
              r_isOccupied := (filter (\<lambda>i. i \<noteq> 1) (roomPanels ra) \<noteq> [])\<rparr>)"
    by blast
  then have ra': "map_option (\<lambda>r. (r_isOccupied r, r_assignedPanels r))
      (getRoom 1 (snd (assignPanelRoute 2 1 ?s))) = Some (False, Some [])"
    by (simp add: pa)
  from t ib have "getRoom 2 (snd (assignPanelRoute 2 1 ?s)) =
      Some (rb\<lparr>r_assignedPanels := Some (roomPanels rb @ [1]), r_isOccupied := True\<rparr>)"
    by blast
  then have rb': "map_option (\<lambda>r. (r_isOccupied r, r_assignedPanels r))
      (getRoom 2 (snd (assignPanelRoute 2 1 ?s))) = Some (True, Some [1])"
    by (simp add: pb)
  from p have "has (panels ?s) 1" by (simp add: has_def getPanel_def)
  with start_roomInvariant(2) [of startClock] a ia b ib ra' rb' show ?thesis
    by simp
qed

text \<open>
  C5, as the claim states it, fails: \<^verbatim>\<open>createRoom\<close> and \<^verbatim>\<open>updateRoom\<close> store the
  occupied flag and the panel list that the caller sends.  The start-up store satisfies the
  invariant; posting an occupied room without panels, or patching room 2 to occupied,
  breaks the first half, and posting a room that lists panel 1 puts that panel into two
  rooms.
\<close>

theorem C5_create_update_break_invariant_counterexample:
  "roomInvariant (newMemStorage startClock) \<and>
   statusCode (fst (postRoom (Some demoRoomA) (newMemStorage startClock))) = 201 \<and>
   \<not> roomInvariant (snd (postRoom (Some demoRoomA) (newMemStorage startClock))) \<and>
   map_option (\<lambda>r. (r_isOccupied r, r_assignedPanels r))
     (getRoom 4 (snd (postRoom (Some demoRoomA) (newMemStorage startClock)))) = Some (True, Some []) \<and>
   \<not> roomInvariant (snd (patchRoom 2 (noRoomUpdates\<lparr>ru_isOccupied := Some True\<rparr>)
                            (newMemStorage startClock))) \<and>
   length (roomsOf 1 (snd (postRoom (Some demoRoomB) (newMemStorage startClock)))) = 2"
  using start_roomInvariant(1) [of startClock]
  by (simp add: postRoom_def createRoom_def Let_def start_counters start_rooms demoRoomA_def
      demoRoomB_def nullish_def roomInvariant_def getRooms_def getRoom_def occupiedOk_def
      roomPanels_def roomsOf_def includesPanel_def patchRoom_def updateRoom_def spreadRoom_def
      noRoomUpdates_def over_def)

text \<open>
  C5, amended.  From a store that satisfies the invariant and keeps every room under its
  own id, the assign-panel and the remove-panel route lead to a store of which both hold
  again.
\<close>

theorem C5_routes_keep_room_invariant:
  assumes "roomInvariant s" and "roomsKeyedById s"
  shows "roomInvariant (snd (assignPanelRoute b p s)) \<and>
         roomsKeyedById (snd (assignPanelRoute b p s)) \<and>
         roomInvariant (snd (removePanelRoute a q s)) \<and>
         roomsKeyedById (snd (removePanelRoute a q s))"
  using roomInvariant_assignPanelRoute [OF assms] roomInvariant_removePanelRoute [OF assms]
  by blast

theorem C5_routes_keep_room_invariant_witness:
  "roomInvariant (newMemStorage startClock) \<and> roomsKeyedById (newMemStorage startClock) \<and>
   roomInvariant (snd (assignPanelRoute 2 1 (newMemStorage startClock))) \<and>
   roomInvariant (snd (removePanelRoute 1 1 (newMemStorage startClock))) \<and>
   map (\<lambda>r. (r_isOccupied r, r_assignedPanels r))
     (getRooms (snd (assignPanelRoute 2 1 (newMemStorage startClock)))) =
     [(False, Some []), (True, Some [1]), (False, Some [])]"
proof -
  have "map (\<lambda>r. (r_isOccupied r, r_assignedPanels r))
     (getRooms (snd (assignPanelRoute 2 1 (newMemStorage startClock)))) =
     [(False, Some []), (True, Some [1]), (False, Some [])]"
    by (simp add: getRooms_def assignPanelRoute_rooms [OF start_roomInvariant(2)] start_rooms
        start_panels mapRooms_def has_def detach_def attach_def includesPanel_def roomPanels_def
        nullish_def)
  with C5_routes_keep_room_invariant [OF start_roomInvariant [of startClock], of 2 1 1 1]
    start_roomInvariant [of startClock]
  show ?thesis by blast
qed

section \<open>Queue position\<close>

lemma findIndex_none: "(\<And>x. x \<in> set xs \<Longrightarrow> \<not> P x) \<Longrightarrow> findIndex P xs = -1"
  by (induction xs) simp_all

lemma findIndex_ge: "- 1 \<le> findIndex P xs"
  by (induction xs) (simp_all add: Let_def)

lemma findIndex_first:
  assumes "\<And>x. x \<in> set xs \<Longrightarrow> \<not> P x" and "P y"
  shows "findIndex P (xs @ y # ys) = int (length xs)"
  using assms
proof (induction xs)
  case Nil
  then show ?case by simp
next
  case (Cons x xs)
  then have "findIndex P (xs @ y # ys) = int (length xs)" by simp
  with Cons.prems show ?case by (simp add: Let_def)
qed

lemma filter_enumerate_below:
  "map snd (filter (\<lambda>ix. int (fst ix) < p) (enumerate n xs)) = take (nat (p - int n)) xs"
proof (induction xs arbitrary: n)
  case Nil
  then show ?case by simp
next
  case (Cons x xs)
  show ?case
  proof (cases "int n < p")
    case True
    then have "nat (p - int n) = Suc (nat (p - int (Suc n)))" by simp
    with True Cons [of "Suc n"] show ?thesis by simp
  next
    case False
    then have "\<And>ix. ix \<in> set (enumerate (Suc n) xs) \<Longrightarrow> \<not> int (fst ix) < p"
      by (auto simp add: in_set_enumerate_eq)
    then have "filter (\<lambda>ix. int (fst ix) < p) (enumerate (Suc n) xs) = []"
      by (simp add: filter_empty_conv)
    with False show ?thesis by simp
  qed
qed

lemma filterIndexBelow_take: "filterIndexBelow (int n) xs = take n xs"
  using filter_enumerate_below [of "int n" 0 xs] by (simp add: filterIndexBelow_def)

lemma filterIndexBelow_negative: "filterIndexBelow (- 1) xs = []"
  using filter_enumerate_below [of "- 1" 0 xs] by (simp add: filterIndexBelow_def)

text \<open>A stable sort puts the keys below a pivot first, then the keys equal to it in their
  original order, then the keys above it.\<close>

lemma sort_key_around:
  fixes f :: "'a \<Rightarrow> int"
  shows "sort_key f xs =
     sort_key f (filter (\<lambda>x. f x < t) xs) @ filter (\<lambda>x. f x = t) xs @
     sort_key f (filter (\<lambda>x. t < f x) xs)"
    (is "_ = ?low @ ?mid @ ?high")
proof (rule properties_for_sort_key)
  show "mset (?low @ ?mid @ ?high) = mset xs"
    by (induction xs) auto
  have "map f ?mid = replicate (length ?mid) t"
    by (induction xs) auto
  then have "sorted (map f ?mid)"
    by (simp add: sorted_replicate)
  then show "sorted (map f (?low @ ?mid @ ?high))"
    by (auto simp add: sorted_append)
next
  fix k
  have stable: "filter (\<lambda>x. f k = f x) (sort_key f zs) = filter (\<lambda>x. f k = f x) zs" for zs
    using sort_key_stable [of f "f k" zs] by (simp add: eq_commute)
  consider "f k < t" | "f k = t" | "t < f k" by linarith
  then show "filter (\<lambda>x. f k = f x) (?low @ ?mid @ ?high) = filter (\<lambda>x. f k = f x) xs"
  proof cases
    case 1
    then show ?thesis
      by (auto simp add: stable filter_empty_conv intro!: filter_cong)
  next
    case 2
    then show ?thesis
      by (auto simp add: stable filter_empty_conv intro!: filter_cong)
  next
    case 3
    then show ?thesis
      by (auto simp add: stable filter_empty_conv intro!: filter_cong)
  qed
qed

lemma queue_position:
  assumes i: "i < length allCandidates" and c: "allCandidates ! i = c"
    and q: "inQueueWith c c"
    and e: "\<And>j. j < length allCandidates \<Longrightarrow> j \<noteq> i \<Longrightarrow> inQueueWith c (allCandidates ! j) \<Longrightarrow>
              c_email (allCandidates ! j) \<noteq> c_email c"
  defines "ahead \<equiv>
     sort_key c_timestamp
       (filter (\<lambda>x. inQueueWith c x \<and> c_timestamp x < c_timestamp c) allCandidates) @
     filter (\<lambda>x. inQueueWith c x \<and> c_timestamp x = c_timestamp c) (take i allCandidates)"
  shows "queueEffect (Some c) allCandidates st = (int (length ahead) + 1, ahead)"
proof -
  let ?Q = "inQueueWith c"
  let ?t = "c_timestamp"
  let ?pre = "take i allCandidates"
  let ?post = "drop (Suc i) allCandidates"
  have split: "allCandidates = ?pre @ c # ?post"
    using id_take_nth_drop [OF i] unfolding c .
  have other: "c_email x \<noteq> c_email c" if x: "x \<in> set ?pre \<union> set ?post" and qx: "?Q x" for x
  proof -
    have "\<exists>j. j < length allCandidates \<and> j \<noteq> i \<and> allCandidates ! j = x"
    proof (cases "x \<in> set ?pre")
      case True
      then obtain j where "j < length ?pre" "?pre ! j = x"
        by (auto simp add: in_set_conv_nth)
      with i have "j < length allCandidates \<and> j \<noteq> i \<and> allCandidates ! j = x"
        by simp
      then show ?thesis ..
    next
      case False
      with x have "x \<in> set ?post" by simp
      then obtain j where "j < length ?post" "?post ! j = x"
        by (auto simp add: in_set_conv_nth)
      with i have "Suc i + j < length allCandidates \<and> Suc i + j \<noteq> i \<and>
          allCandidates ! (Suc i + j) = x"
        by simp
      then show ?thesis ..
    qed
    then obtain j where "j < length allCandidates" "j \<noteq> i" "allCandidates ! j = x"
      by blast
    with e [of j] qx show ?thesis by auto
  qed
  let ?F = "filter ?Q allCandidates"
  let ?L = "sort_key ?t (filter (\<lambda>x. ?t x < ?t c) ?F)"
  let ?EA = "filter (\<lambda>x. ?t x = ?t c) (filter ?Q ?pre)"
  let ?EB = "filter (\<lambda>x. ?t x = ?t c) (filter ?Q ?post)"
  let ?G = "sort_key ?t (filter (\<lambda>x. ?t c < ?t x) ?F)"
  have "filter (\<lambda>x. ?t x = ?t c) ?F = ?EA @ c # ?EB"
    using q by (subst split) simp
  then have sorted: "sort_key ?t ?F = (?L @ ?EA) @ c # (?EB @ ?G)"
    using sort_key_around [of ?t ?F "?t c"] by simp
  have members: "set allCandidates = set ?pre \<union> insert c (set ?post)"
    using arg_cong [OF split, of set] by (simp only: set_append list.set)
  have before: "c_email x \<noteq> c_email c" if "x \<in> set (?L @ ?EA)" for x
  proof -
    from that have qx: "?Q x" by auto
    from that have "x \<in> set ?pre \<or> (x \<in> set allCandidates \<and> ?t x < ?t c)"
      by auto
    then have "x \<in> set ?pre \<union> set ?post"
      unfolding members by auto
    then show ?thesis using qx by (rule other)
  qed
  have pos: "findIndex (\<lambda>x. c_email x = c_email c) (sort_key ?t ?F) = int (length (?L @ ?EA))"
    unfolding sorted by (rule findIndex_first) (use before in auto)
  have ah: "ahead = ?L @ ?EA"
    by (simp add: ahead_def conj_commute)
  from i have "length allCandidates > 0" by (cases allCandidates) simp_all
  then show ?thesis
    unfolding queueEffect_def Let_def option.case pos filterIndexBelow_take ah
    by (simp add: sorted)
qed

lemmas queue_defs = queueEffect_def inQueueWith_def queueCandidate_def filterIndexBelow_def
  specQueuePosition_def specCandidatesAhead_def strictlyEarlier_def tiedBefore_def Let_def

text \<open>
  C2, as the claim states it, fails on a tie: of two candidates of the same queue with
  the same registration time, the second in the list is at position 2 with the first
  ahead of it, while no candidate registered strictly earlier.
\<close>

theorem C2_tie_counterexample:
  "queueEffect (Some (queueCandidate 2 ''b@example.com'' 100))
     [queueCandidate 1 ''a@example.com'' 100, queueCandidate 2 ''b@example.com'' 100] (0, []) =
     (2, [queueCandidate 1 ''a@example.com'' 100]) \<and>
   specQueuePosition (queueCandidate 2 ''b@example.com'' 100)
     [queueCandidate 1 ''a@example.com'' 100, queueCandidate 2 ''b@example.com'' 100] = 1 \<and>
   specCandidatesAhead (queueCandidate 2 ''b@example.com'' 100)
     [queueCandidate 1 ''a@example.com'' 100, queueCandidate 2 ''b@example.com'' 100] = []"
  by (simp add: queue_defs)

text \<open>
  C2, amended.  For a candidate of the list whose status is \<open>registered\<close> or
  \<open>in_queue\<close> and whose email no other candidate of its queue has, the queue position
  is one plus the number of candidates of its queue that registered strictly earlier or
  registered at the same time and stand before it in the list; the candidates ahead are
  those, the strictly earlier ones in ascending order of registration with ties in list
  order, followed by the tied ones in list order.  Where no tied candidate stands before
  it, position and candidates ahead are as specified.
\<close>

theorem C2_queue_position:
  assumes "i < length allCandidates" and "allCandidates ! i = c" and "inQueueWith c c"
    and "emailUniqueInQueue i allCandidates"
  shows "queueEffect (Some c) allCandidates st =
           (specQueuePosition c allCandidates + int (length (tiedBefore i c allCandidates)),
            specCandidatesAhead c allCandidates @ tiedBefore i c allCandidates) \<and>
         (tiedBefore i c allCandidates = [] \<longrightarrow>
            queueEffect (Some c) allCandidates st =
              (specQueuePosition c allCandidates, specCandidatesAhead c allCandidates))"
proof -
  have "c_email (allCandidates ! j) \<noteq> c_email c"
    if "j < length allCandidates" "j \<noteq> i" "inQueueWith c (allCandidates ! j)" for j
    using that assms(2,4) by (auto simp add: emailUniqueInQueue_def)
  from queue_position [OF assms(1,2,3) this, of st]
  have "queueEffect (Some c) allCandidates st =
      (specQueuePosition c allCandidates + int (length (tiedBefore i c allCandidates)),
       specCandidatesAhead c allCandidates @ tiedBefore i c allCandidates)"
    by (simp add: specQueuePosition_def specCandidatesAhead_def strictlyEarlier_def tiedBefore_def)
  then show ?thesis by simp
qed

theorem C2_queue_position_witness:
  "inQueueWith (queueCandidate 1 ''a@example.com'' 100) (queueCandidate 1 ''a@example.com'' 100) \<and>
   emailUniqueInQueue 0 [queueCandidate 1 ''a@example.com'' 100, queueCandidate 2 ''b@example.com'' 50] \<and>
   queueEffect (Some (queueCandidate 1 ''a@example.com'' 100))
     [queueCandidate 1 ''a@example.com'' 100, queueCandidate 2 ''b@example.com'' 50] (0, []) =
     (2, [queueCandidate 2 ''b@example.com'' 50]) \<and>
   queueEffect (Some (queueCandidate 2 ''b@example.com'' 50))
     [queueCandidate 1 ''a@example.com'' 100, queueCandidate 2 ''b@example.com'' 50] (0, []) =
     (1, [])"
proof -
  let ?a = "queueCandidate 1 ''a@example.com'' 100"
  let ?b = "queueCandidate 2 ''b@example.com'' 50"
  have qa: "inQueueWith ?a ?a" and qb: "inQueueWith ?b ?b"
    by (simp_all add: inQueueWith_def queueCandidate_def)
  have ua: "emailUniqueInQueue 0 [?a, ?b]" and ub: "emailUniqueInQueue 1 [?a, ?b]"
    by (simp_all add: emailUniqueInQueue_def queueCandidate_def less_Suc_eq)
  have ia: "0 < length [?a, ?b]" "[?a, ?b] ! 0 = ?a" and ib: "1 < length [?a, ?b]" "[?a, ?b] ! 1 = ?b"
    by simp_all
  from C2_queue_position [OF ia qa ua, of "(0, [])"]
  have "queueEffect (Some ?a) [?a, ?b] (0, []) = (2, [?b])"
    by (simp add: specQueuePosition_def specCandidatesAhead_def strictlyEarlier_def tiedBefore_def
        inQueueWith_def queueCandidate_def)
  moreover from C2_queue_position [OF ib qb ub, of "(0, [])"]
  have "queueEffect (Some ?b) [?a, ?b] (0, []) = (1, [])"
    by (simp add: specQueuePosition_def specCandidatesAhead_def strictlyEarlier_def tiedBefore_def
        inQueueWith_def queueCandidate_def)
  ultimately show ?thesis using qa ua by blast
qed

end
